theory Spec2Isabelle
  imports Main "HOL-Library.Sublist"
begin

section \<open>Data model\<close>

text \<open>
  A file path is kept as the pair that \<^verbatim>\<open>filepath.Join\<close> glues together: the
  directory and the base name. \<^verbatim>\<open>filepath.Dir\<close> and \<^verbatim>\<open>filepath.Base\<close> are the
  two projections.
\<close>

datatype path = Join string string

fun Dir :: "path \<Rightarrow> string" where
  "Dir (Join d n) = d"

fun Base :: "path \<Rightarrow> string" where
  "Base (Join d n) = n"

text \<open>
  A calendar date is what the layout \<^verbatim>\<open>time.DateOnly\<close> prints (year, month, day); a
  \<^verbatim>\<open>time.Time\<close> is a date with its wall clock (hour, minute, second, nanosecond).
\<close>

datatype date = Date nat nat nat

datatype time = Time date nat nat nat nat

fun date_of :: "time \<Rightarrow> date" where
  "date_of (Time d h m s n) = d"

fun time_of_day :: "time \<Rightarrow> nat \<times> nat \<times> nat \<times> nat" where
  "time_of_day (Time d h m s n) = (h, m, s, n)"

text \<open>Reading a \<^verbatim>\<open>DATE\<close> column into a \<^verbatim>\<open>*time.Time\<close>: the date at 00:00:00 UTC.\<close>

definition scan_date :: "date \<Rightarrow> time" where
  "scan_date d = Time d 0 0 0 0"

definition digit :: "nat \<Rightarrow> char" where
  "digit n = ''0123456789'' ! (n mod 10)"

fun decimal :: "nat \<Rightarrow> string" where
  "decimal n = (if n < 10 then [digit n] else decimal (n div 10) @ [digit n])"

declare decimal.simps [simp del]

text \<open>Zero-padded decimal of at least the given width, as the formatter of package time writes it.\<close>

definition appendInt :: "nat \<Rightarrow> nat \<Rightarrow> string" where
  "appendInt x width = replicate (width - length (decimal x)) (CHR ''0'') @ decimal x"

fun show_date :: "date \<Rightarrow> string" where
  "show_date (Date y m d) = appendInt y 4 @ ''-'' @ appendInt m 2 @ ''-'' @ appendInt d 2"

text \<open>\<^verbatim>\<open>t.Format(time.DateOnly)\<close>\<close>

definition Format_DateOnly :: "time \<Rightarrow> string" where
  "Format_DateOnly t = show_date (date_of t)"

text \<open>
  The Markdown library is outside the repository. A parsed document is the list of its
  top-level block nodes; a heading carries its level and the HTML the renderer yields for
  it, a paragraph the HTML the renderer yields for it, and any other block the name of its
  Go type.
\<close>

datatype node = ast_Heading nat string | ast_Paragraph string | ast_Other string

fun Render :: "node \<Rightarrow> string" where
  "Render (ast_Heading l html) = html"
| "Render (ast_Paragraph html) = html"
| "Render (ast_Other ty) = []"

datatype error =
    ReadFileError path
  | MoreThanOneHeading
  | UnexpectedNode string
  | NoHeadingFound
  | NoParagraphs
  | CreateError path
  | StorageError path
  | UniqueViolation string
  | MultipleRows
  | UnrecognisedBackend string
  | NilDereference
  | TemplateParseError
  | TemplateTreeEmpty
  | TemplateExecError
  | WriteError
  | CouldNotRender path error

text \<open>
  Package text/template is outside the repository as well. A template text is kept as what
  \<^verbatim>\<open>Parse\<close> makes of it: a syntax error, an empty tree, or a tree whose execution maps
  the exported fields of the post (file path, heading, date, content) to the output, or
  fails.
\<close>

datatype template =
    BadSyntax
  | EmptyTree
  | Tree "path \<Rightarrow> string \<Rightarrow> string \<Rightarrow> string \<Rightarrow> string option"

record blogPost =
  FilePath :: path
  publicationTracking :: bool
  template :: template
  Heading :: string
  Content :: string
  DtPosted :: string

record sqliteRegistry =
  DB :: nat
  location :: path

text \<open>
  An \<^verbatim>\<open>io.Writer\<close>: a \<^verbatim>\<open>bytes.Buffer\<close> with the bytes written so far, or a writer
  whose \<^verbatim>\<open>Write\<close> fails.
\<close>

datatype writer = Buffer string | FailingWriter

fun Write :: "writer \<Rightarrow> string \<Rightarrow> error + writer" where
  "Write (Buffer acc) bs = Inr (Buffer (acc @ bs))"
| "Write FailingWriter bs = Inl WriteError"

fun Bytes :: "writer \<Rightarrow> string" where
  "Bytes (Buffer acc) = acc"
| "Bytes FailingWriter = []"

text \<open>
  Everything a call can read or change outside its arguments: the Markdown files (each by
  its parsed content), the global \<^verbatim>\<open>DefaultOptions\<close>, the global \<^verbatim>\<open>sqlitePool\<close>,
  the SQLite files on disk, and the clocks. A SQLite file is \<open>None\<close> while it holds
  no table and \<open>Some rows\<close> once table \<^verbatim>\<open>posts\<close> with its unique index exists.
  \<open>nocreate\<close> are the paths where \<^verbatim>\<open>os.Create\<close> fails, \<open>broken\<close> the database
  files on which every statement fails.
\<close>

record world =
  files :: "path \<rightharpoonup> node list"
  EnablePublicationTracking :: bool
  Backend :: string
  sqlitePool :: "string \<rightharpoonup> sqliteRegistry"
  disk :: "path \<rightharpoonup> (string \<times> date) list option"
  nocreate :: "path set"
  broken :: "path set"
  next_conn :: nat
  now :: time
  CURRENT_DATE :: date

definition SQLite :: string where
  "SQLite = ''sqlite''"

section \<open>The heading replacer\<close>

text \<open>
  \<^verbatim>\<open>strings.NewReplacer("<h2>", "", "</h2>", "", "<h3>", "", "</h3>", "")\<close>: at each
  position of the input the first pair whose old string starts there is replaced, and
  the scan goes on behind the match; otherwise the byte is copied.
\<close>

definition oldnew :: "(string \<times> string) list" where
  "oldnew = [(''<h2>'', ''''), (''</h2>'', ''''), (''<h3>'', ''''), (''</h3>'', '''')]"

definition match_at :: "(string \<times> string) list \<Rightarrow> string \<Rightarrow> (string \<times> string) option" where
  "match_at pairs s = find (\<lambda>(old, new). old \<noteq> [] \<and> prefix old s) pairs"

function Replace :: "(string \<times> string) list \<Rightarrow> string \<Rightarrow> string" where
  "Replace pairs [] = []"
| "Replace pairs (c # cs) =
     (case match_at pairs (c # cs) of
        Some (old, new) \<Rightarrow> new @ Replace pairs (drop (length old) (c # cs))
      | None \<Rightarrow> c # Replace pairs cs)"
  by pat_completeness auto
termination
proof (relation "measure (\<lambda>(pairs, s). length s)")
  fix pairs :: "(string \<times> string) list" and c cs x2 x y
  assume "match_at pairs (c # cs) = Some x2" and "(x, y) = x2"
  then have "x \<noteq> []"
    by (auto simp: match_at_def dest: find_Some_iff [THEN iffD1])
  then show "((pairs, drop (length x) (c # cs)), pairs, c # cs) \<in> measure (\<lambda>(pairs, s). length s)"
    by (cases x) auto
qed auto

section \<open>The publication registry\<close>

definition GetName :: "blogPost \<Rightarrow> string" where
  "GetName p = Base (FilePath p)"

text \<open>
  The schema batch of \<^verbatim>\<open>createSqliteRegistry\<close>: \<^verbatim>\<open>CREATE TABLE IF NOT EXISTS posts\<close>
  and \<^verbatim>\<open>CREATE UNIQUE INDEX IF NOT EXISTS name_idx\<close>. The connection is opened with
  \<^verbatim>\<open>mode=rw\<close>, so a missing file is an error.
\<close>

definition exec_schema :: "path \<Rightarrow> world \<Rightarrow> error + world" where
  "exec_schema fp w =
     (if fp \<in> broken w then Inl (StorageError fp)
      else case disk w fp of
             None \<Rightarrow> Inl (StorageError fp)
           | Some None \<Rightarrow> Inr (w\<lparr>disk := (disk w)(fp \<mapsto> Some [])\<rparr>)
           | Some (Some rows) \<Rightarrow> Inr w)"

text \<open>\<^verbatim>\<open>SELECT dt_posted FROM posts WHERE name = ?\<close>\<close>

definition select_dt_posted :: "path \<Rightarrow> string \<Rightarrow> world \<Rightarrow> error + date list" where
  "select_dt_posted fp name w =
     (if fp \<in> broken w then Inl (StorageError fp)
      else case disk w fp of
             Some (Some rows) \<Rightarrow> Inr (map snd (filter (\<lambda>row. fst row = name) rows))
           | _ \<Rightarrow> Inl (StorageError fp))"

text \<open>
  \<^verbatim>\<open>INSERT INTO posts ... RETURNING dt_posted\<close>: the unique index on \<^verbatim>\<open>name\<close>
  rejects a second row of the same name; otherwise the row is appended and its date is
  the one row returned.
\<close>

definition insert_returning ::
  "path \<Rightarrow> string \<Rightarrow> date \<Rightarrow> world \<Rightarrow> (error + date list) \<times> world" where
  "insert_returning fp name v w =
     (if fp \<in> broken w then (Inl (StorageError fp), w)
      else case disk w fp of
             Some (Some rows) \<Rightarrow>
               if name \<in> fst ` set rows then (Inl (UniqueViolation name), w)
               else (Inr [v], w\<lparr>disk := (disk w)(fp \<mapsto> Some (rows @ [(name, v)]))\<rparr>)
           | _ \<Rightarrow> (Inl (StorageError fp), w))"

definition createSqliteRegistry :: "string \<Rightarrow> world \<Rightarrow> (error + sqliteRegistry) \<times> world" where
  "createSqliteRegistry directory w =
     (let fp = Join directory ''blog.sqlite'' in
      if fp \<in> nocreate w then (Inl (CreateError fp), w)
      else
        let w1 = w\<lparr>disk := (disk w)(fp \<mapsto> None)\<rparr>;
            db = next_conn w1;
            w2 = w1\<lparr>next_conn := Suc db\<rparr>
        in case exec_schema fp w2 of
             Inl e \<Rightarrow> (Inl e, w2)
           | Inr w3 \<Rightarrow> (Inr \<lparr>DB = db, location = fp\<rparr>, w3))"

text \<open>\<^verbatim>\<open>sync.Map.LoadOrStore\<close>, of which the caller drops the result.\<close>

definition LoadOrStore :: "string \<Rightarrow> sqliteRegistry \<Rightarrow> world \<Rightarrow> world" where
  "LoadOrStore directory r w =
     (case sqlitePool w directory of
        Some loaded \<Rightarrow> w
      | None \<Rightarrow> w\<lparr>sqlitePool := (sqlitePool w)(directory \<mapsto> r)\<rparr>)"

definition Acquire :: "string \<Rightarrow> world \<Rightarrow> (error + sqliteRegistry) \<times> world" where
  "Acquire directory w =
     (case sqlitePool w directory of
        Some loadedRegistry \<Rightarrow> (Inr loadedRegistry, w)
      | None \<Rightarrow>
          (case createSqliteRegistry directory w of
             (Inl e, w1) \<Rightarrow> (Inl e, w1)
           | (Inr registry, w1) \<Rightarrow> (Inr registry, LoadOrStore directory registry w1)))"

definition SetPublicationDate ::
  "sqliteRegistry \<Rightarrow> blogPost \<Rightarrow> time option \<Rightarrow> world \<Rightarrow> (error + time option) \<times> world" where
  "SetPublicationDate r p t w =
     (let v = (case t of None \<Rightarrow> CURRENT_DATE w | Some t' \<Rightarrow> date_of t') in
      case insert_returning (location r) (GetName p) v w of
        (Inl e, w1) \<Rightarrow> (Inl e, w1)
      | (Inr rows, w1) \<Rightarrow>
          (case rows of
             [] \<Rightarrow> (Inr None, w1)
           | first # others \<Rightarrow>
               if others \<noteq> [] then (Inl MultipleRows, w1)
               else (Inr (Some (scan_date first)), w1)))"

definition GetPublicationDate :: "sqliteRegistry \<Rightarrow> blogPost \<Rightarrow> world \<Rightarrow> error + time option" where
  "GetPublicationDate r p w =
     (case select_dt_posted (location r) (GetName p) w of
        Inl e \<Rightarrow> Inl e
      | Inr [] \<Rightarrow> Inr None
      | Inr (first # others) \<Rightarrow> Inr (Some (scan_date first)))"

section \<open>Rendering one post\<close>

text \<open>The loop over the top-level nodes (it returns at the first node it rejects).\<close>

fun scan_nodes :: "node list \<Rightarrow> node option \<Rightarrow> node list \<Rightarrow> error + (node option \<times> node list)" where
  "scan_nodes [] heading paragraphs = Inr (heading, paragraphs)"
| "scan_nodes (ast_Heading l html # cs) heading paragraphs =
     (if heading \<noteq> None then Inl MoreThanOneHeading
      else scan_nodes cs (Some (ast_Heading l html)) paragraphs)"
| "scan_nodes (ast_Paragraph html # cs) heading paragraphs =
     scan_nodes cs heading (paragraphs @ [ast_Paragraph html])"
| "scan_nodes (ast_Other ty # cs) heading paragraphs = Inl (UnexpectedNode ty)"

text \<open>From the parsed nodes to the fields \<^verbatim>\<open>Heading\<close> and \<^verbatim>\<open>Content\<close> of the post.\<close>

definition extract_post :: "node list \<Rightarrow> blogPost \<Rightarrow> error option \<times> blogPost" where
  "extract_post nodes p =
     (case scan_nodes nodes None [] of
        Inl e \<Rightarrow> (Some e, p)
      | Inr (heading, paragraphs) \<Rightarrow>
          (case heading of
             None \<Rightarrow> (Some NoHeadingFound, p)
           | Some h \<Rightarrow>
               let p1 = p\<lparr>Heading := Replace oldnew (Render h)\<rparr> in
               if paragraphs = [] then (Some NoParagraphs, p1)
               else (None, p1\<lparr>Content := concat (map Render paragraphs)\<rparr>)))"

text \<open>The block "add publication date" of \<^verbatim>\<open>WriteHtml\<close>.\<close>

definition publication_date :: "blogPost \<Rightarrow> world \<Rightarrow> (error + time option) \<times> world" where
  "publication_date p w =
     (if EnablePublicationTracking w \<or> publicationTracking p then
        (if Backend w = SQLite then
           (case Acquire (Dir (FilePath p)) w of
              (Inl e, w1) \<Rightarrow> (Inl e, w1)
            | (Inr backend, w1) \<Rightarrow>
                (case GetPublicationDate backend p w1 of
                   Inl e \<Rightarrow> (Inl e, w1)
                 | Inr (Some dtPosted) \<Rightarrow> (Inr (Some dtPosted), w1)
                 | Inr None \<Rightarrow> SetPublicationDate backend p None w1))
         else (Inl (UnrecognisedBackend (Backend w)), w))
      else (Inr (Some (now w)), w))"

text \<open>Parsing and executing the template of the post.\<close>

definition execute_template :: "blogPost \<Rightarrow> error + string" where
  "execute_template p =
     (case template p of
        BadSyntax \<Rightarrow> Inl TemplateParseError
      | EmptyTree \<Rightarrow> Inl TemplateTreeEmpty
      | Tree exec \<Rightarrow>
          (case exec (FilePath p) (Heading p) (DtPosted p) (Content p) of
             None \<Rightarrow> Inl TemplateExecError
           | Some out \<Rightarrow> Inr out))"

definition WriteHtml ::
  "blogPost \<Rightarrow> writer \<Rightarrow> world \<Rightarrow> error option \<times> blogPost \<times> writer \<times> world" where
  "WriteHtml p wr w =
     (case files w (FilePath p) of
        None \<Rightarrow> (Some (ReadFileError (FilePath p)), p, wr, w)
      | Some nodes \<Rightarrow>
          (case extract_post nodes p of
             (Some e, p1) \<Rightarrow> (Some e, p1, wr, w)
           | (None, p1) \<Rightarrow>
               (case publication_date p1 w of
                  (Inl e, w1) \<Rightarrow> (Some e, p1, wr, w1)
                | (Inr None, w1) \<Rightarrow> (Some NilDereference, p1, wr, w1)
                | (Inr (Some dtPosted), w1) \<Rightarrow>
                    let p2 = p1\<lparr>DtPosted := Format_DateOnly dtPosted\<rparr> in
                    (case execute_template p2 of
                       Inl e \<Rightarrow> (Some e, p2, wr, w1)
                     | Inr out \<Rightarrow>
                         (case Write wr out of
                            Inl e \<Rightarrow> (Some e, p2, wr, w1)
                          | Inr wr1 \<Rightarrow> (None, p2, wr1, w1))))))"

section \<open>Rendering a collection\<close>

record blog =
  Posts :: "blogPost list"
  Directory :: string

text \<open>The loop of \<^verbatim>\<open>RenderPosts\<close> over one shared buffer.\<close>

fun render_loop :: "blogPost list \<Rightarrow> writer \<Rightarrow> world \<Rightarrow> (error + writer) \<times> world" where
  "render_loop [] htmlBuffer w = (Inr htmlBuffer, w)"
| "render_loop (post # posts) htmlBuffer w =
     (case WriteHtml post htmlBuffer w of
        (Some e, post1, htmlBuffer1, w1) \<Rightarrow> (Inl (CouldNotRender (FilePath post) e), w1)
      | (None, post1, htmlBuffer1, w1) \<Rightarrow> render_loop posts htmlBuffer1 w1)"

definition RenderPosts :: "blog \<Rightarrow> world \<Rightarrow> (string \<times> error option) \<times> world" where
  "RenderPosts b w =
     (case render_loop (Posts b) (Buffer []) w of
        (Inl e, w1) \<Rightarrow> (([], Some e), w1)
      | (Inr htmlBuffer, w1) \<Rightarrow> ((Bytes htmlBuffer, None), w1))"

text \<open>
  The tasks of \<^verbatim>\<open>RenderPostsAsync\<close>, one per index, each run as a whole in the order
  of the schedule: the executions in which no goroutine is preempted inside
  \<^verbatim>\<open>WriteHtml\<close>. A task that succeeds fills its slot of \<open>bufSlice\<close>; the group
  keeps the first error. The executions in which the goroutines interleave inside
  \<^verbatim>\<open>WriteHtml\<close> are those of \<open>run_goroutines\<close> below.
\<close>

fun run_tasks ::
  "nat list \<Rightarrow> blogPost list \<Rightarrow> string list \<Rightarrow> error option \<Rightarrow> world
     \<Rightarrow> string list \<times> error option \<times> world" where
  "run_tasks [] posts bufSlice err w = (bufSlice, err, w)"
| "run_tasks (i # schedule) posts bufSlice err w =
     (if i < length posts then
        (case WriteHtml (posts ! i) (Buffer []) w of
           (Some e, p1, buf, w1) \<Rightarrow>
             run_tasks schedule posts bufSlice (case err of None \<Rightarrow> Some e | Some e0 \<Rightarrow> err) w1
         | (None, p1, buf, w1) \<Rightarrow>
             run_tasks schedule posts (bufSlice[i := Bytes buf]) err w1)
      else run_tasks schedule posts bufSlice err w)"

definition RenderPostsAsync :: "nat list \<Rightarrow> blog \<Rightarrow> world \<Rightarrow> (string \<times> error option) \<times> world" where
  "RenderPostsAsync schedule b w =
     (case run_tasks schedule (Posts b) (replicate (length (Posts b)) []) None w of
        (bufSlice, err, w1) \<Rightarrow>
          if err \<noteq> None then (([], None), w1)
          else ((concat bufSlice, None), w1))"

section \<open>Racing acquirers\<close>

text \<open>
  \<^verbatim>\<open>Acquire\<close> cut at its accesses to the shared pool: the \<^verbatim>\<open>Load\<close>, the creation of
  the registry, and the \<^verbatim>\<open>LoadOrStore\<close>. Each step is atomic; goroutines interleave
  between steps.
\<close>

datatype acquire_pc =
    AtLoad
  | AtCreate
  | AtLoadOrStore sqliteRegistry
  | Returned "error + sqliteRegistry"

fun acquire_step :: "string \<Rightarrow> acquire_pc \<Rightarrow> world \<Rightarrow> acquire_pc \<times> world" where
  "acquire_step directory AtLoad w =
     (case sqlitePool w directory of
        Some loadedRegistry \<Rightarrow> (Returned (Inr loadedRegistry), w)
      | None \<Rightarrow> (AtCreate, w))"
| "acquire_step directory AtCreate w =
     (case createSqliteRegistry directory w of
        (Inl e, w1) \<Rightarrow> (Returned (Inl e), w1)
      | (Inr registry, w1) \<Rightarrow> (AtLoadOrStore registry, w1))"
| "acquire_step directory (AtLoadOrStore registry) w =
     (Returned (Inr registry), LoadOrStore directory registry w)"
| "acquire_step directory (Returned r) w = (Returned r, w)"

text \<open>Goroutines calling \<^verbatim>\<open>Acquire\<close> on one directory; the schedule names whose step is next.\<close>

fun run_acquirers ::
  "nat list \<Rightarrow> string \<Rightarrow> acquire_pc list \<Rightarrow> world \<Rightarrow> acquire_pc list \<times> world" where
  "run_acquirers [] directory pcs w = (pcs, w)"
| "run_acquirers (t # schedule) directory pcs w =
     (if t < length pcs then
        (case acquire_step directory (pcs ! t) w of
           (pc1, w1) \<Rightarrow> run_acquirers schedule directory (pcs[t := pc1]) w1)
      else run_acquirers schedule directory pcs w)"

section \<open>Concrete inputs\<close>

text \<open>The state of a process at its start: default options, an empty pool.\<close>

definition initial_world ::
  "(path \<rightharpoonup> node list) \<Rightarrow> (path \<rightharpoonup> (string \<times> date) list option) \<Rightarrow> time \<Rightarrow> date \<Rightarrow> world" where
  "initial_world fs dsk t d =
     \<lparr>files = fs, EnablePublicationTracking = False, Backend = SQLite, sqlitePool = Map.empty,
      disk = dsk, nocreate = {}, broken = {}, next_conn = 0, now = t, CURRENT_DATE = d\<rparr>"

definition example_template :: template where
  "example_template =
     Tree (\<lambda>fp heading dtPosted content.
       Some (''<div><h2>'' @ heading @ ''</h2><span>'' @ dtPosted @ ''</span>'' @ content @ ''</div>''))"

definition post_at :: "path \<Rightarrow> bool \<Rightarrow> template \<Rightarrow> blogPost" where
  "post_at fp tracking tmpl =
     \<lparr>FilePath = fp, publicationTracking = tracking, template = tmpl,
      Heading = [], Content = [], DtPosted = []\<rparr>"

text \<open>Directory \<^verbatim>\<open>blog\<close>: a well-formed post, a post without heading, one with a list.\<close>

definition example_files :: "path \<rightharpoonup> node list" where
  "example_files =
     [Join ''blog'' ''001_a.md'' \<mapsto> [ast_Heading 2 ''<h2>Title</h2>'', ast_Paragraph ''<p>hey</p>''],
      Join ''blog'' ''002_b.md'' \<mapsto> [ast_Paragraph ''<p>hello</p>''],
      Join ''blog'' ''003_c.md'' \<mapsto> [ast_Heading 3 ''<h3>C</h3>'', ast_Paragraph ''<p>c</p>'']]"

definition noon :: time where
  "noon = Time (Date 2026 10 31) 12 30 0 0"

text \<open>A process that has acquired directory \<^verbatim>\<open>blog\<close>, whose store holds one entry.\<close>

definition example_registry :: sqliteRegistry where
  "example_registry = \<lparr>DB = 0, location = Join ''blog'' ''blog.sqlite''\<rparr>"

definition tracked_world :: world where
  "tracked_world =
     (initial_world example_files
        [Join ''blog'' ''blog.sqlite'' \<mapsto> Some [(''001_a.md'', Date 2024 1 1)]]
        noon (Date 2026 10 31))
       \<lparr>sqlitePool := [''blog'' \<mapsto> example_registry], next_conn := 1\<rparr>"

section \<open>Classifying nodes and tags\<close>

text \<open>The three kinds of top-level node.\<close>

fun is_heading :: "node \<Rightarrow> bool" where
  "is_heading (ast_Heading l html) = True"
| "is_heading n = False"

fun is_paragraph :: "node \<Rightarrow> bool" where
  "is_paragraph (ast_Paragraph html) = True"
| "is_paragraph n = False"

fun is_other :: "node \<Rightarrow> bool" where
  "is_other (ast_Other ty) = True"
| "is_other n = False"

text \<open>The wrapper tags of a heading of level \<open>l\<close>, and whether one of the replaced strings occurs.\<close>

definition open_tag :: "nat \<Rightarrow> string" where
  "open_tag l = ''<h'' @ decimal l @ ''>''"

definition close_tag :: "nat \<Rightarrow> string" where
  "close_tag l = ''</h'' @ decimal l @ ''>''"

fun has_match :: "(string \<times> string) list \<Rightarrow> string \<Rightarrow> bool" where
  "has_match pairs [] = False"
| "has_match pairs (c # cs) = (if match_at pairs (c # cs) = None then has_match pairs cs else True)"

text \<open>Files with one defect each, and two headings to strip.\<close>

definition defect_files :: "path \<rightharpoonup> node list" where
  "defect_files =
     [Join ''blog'' ''a.md'' \<mapsto> [ast_Paragraph ''<p>hello</p>''],
      Join ''blog'' ''b.md'' \<mapsto> [ast_Heading 2 ''<h2>B</h2>'', ast_Heading 2 ''<h2>B</h2>'', ast_Other ''*ast.List''],
      Join ''blog'' ''c.md'' \<mapsto> [ast_Heading 2 ''<h2>C</h2>''],
      Join ''blog'' ''d.md'' \<mapsto> [ast_Heading 2 ''<h2>D</h2>'', ast_Other ''*ast.List'', ast_Paragraph ''<p>d</p>''],
      Join ''blog'' ''e.md'' \<mapsto> [ast_Other ''*ast.List''],
      Join ''blog'' ''f.md'' \<mapsto> [ast_Heading 1 ''<h1>Title</h1>'', ast_Paragraph ''<p>f</p>''],
      Join ''blog'' ''g.md'' \<mapsto>
        [ast_Heading 3 ''<h3>Hello <em>you</em></h3>'', ast_Paragraph ''<p>g</p>'']]"

definition defect_world :: world where
  "defect_world = initial_world defect_files Map.empty noon (Date 2026 10 31)"

section \<open>The publication block in closed form\<close>

text \<open>The path of the store of a directory, as \<^verbatim>\<open>createSqliteRegistry\<close> builds it.\<close>

definition store_path :: "string \<Rightarrow> path" where
  "store_path directory = Join directory ''blog.sqlite''"

text \<open>
  The date that the publication block yields for a post of directory \<open>d\<close> and name
  \<open>name\<close>, read off the world: the stored date when the pool has a handle and its store
  has an entry, the current date of the store otherwise.
\<close>

definition resolve :: "world \<Rightarrow> string \<Rightarrow> string \<Rightarrow> error + time option" where
  "resolve w d name =
     (case sqlitePool w d of
        None \<Rightarrow>
          if store_path d \<in> nocreate w then Inl (CreateError (store_path d))
          else if store_path d \<in> broken w then Inl (StorageError (store_path d))
          else Inr (Some (scan_date (CURRENT_DATE w)))
      | Some h \<Rightarrow>
          if location h \<in> broken w then Inl (StorageError (location h))
          else case disk w (location h) of
                 Some (Some rows) \<Rightarrow>
                   (case filter (\<lambda>row. fst row = name) rows of
                      [] \<Rightarrow> Inr (Some (scan_date (CURRENT_DATE w)))
                    | row # others \<Rightarrow> Inr (Some (scan_date (snd row))))
               | _ \<Rightarrow> Inl (StorageError (location h)))"

text \<open>Every handle in the pool is the one \<^verbatim>\<open>Acquire\<close> installs for its directory.\<close>

definition pool_ok :: "world \<Rightarrow> bool" where
  "pool_ok w = (\<forall>d h. sqlitePool w d = Some h \<longrightarrow> location h = store_path d)"

text \<open>The store after the lookup and, for a missing entry, the insertion of the current date.\<close>

definition stamped :: "world \<Rightarrow> path \<Rightarrow> string \<Rightarrow> world" where
  "stamped w fp name =
     (case disk w fp of
        Some (Some rows) \<Rightarrow>
          if fp \<in> broken w \<or> filter (\<lambda>row. fst row = name) rows \<noteq> [] then w
          else w\<lparr>disk := (disk w)(fp \<mapsto> Some (rows @ [(name, CURRENT_DATE w)]))\<rparr>
      | _ \<Rightarrow> w)"

text \<open>The world after the publication block of a tracked post.\<close>

definition dated :: "world \<Rightarrow> string \<Rightarrow> string \<Rightarrow> world" where
  "dated w d0 n0 =
     (case sqlitePool w d0 of
        Some r \<Rightarrow> stamped w (location r) n0
      | None \<Rightarrow>
          if store_path d0 \<in> nocreate w then w
          else if store_path d0 \<in> broken w
            then w\<lparr>disk := (disk w)(store_path d0 \<mapsto> None), next_conn := Suc (next_conn w)\<rparr>
            else stamped
                  (w\<lparr>disk := (disk w)(store_path d0 \<mapsto> Some []), next_conn := Suc (next_conn w),
                     sqlitePool := (sqlitePool w)(d0 \<mapsto> \<lparr>DB = next_conn w, location = store_path d0\<rparr>)\<rparr>)
                  (store_path d0) n0)"

section \<open>The outcome of rendering a post\<close>

text \<open>
  What \<^verbatim>\<open>WriteHtml\<close> makes of a post on an empty buffer: its error, or the bytes it
  writes.
\<close>

definition rendered :: "world \<Rightarrow> blogPost \<Rightarrow> error + string" where
  "rendered w p =
     (case WriteHtml p (Buffer []) w of
        (Some e, p1, wr1, w1) \<Rightarrow> Inl e
      | (None, p1, wr1, w1) \<Rightarrow> Inr (Bytes wr1))"

text \<open>Whether the post renders, and the HTML it renders to.\<close>

definition renders :: "world \<Rightarrow> blogPost \<Rightarrow> bool" where
  "renders w p = (case rendered w p of Inl e \<Rightarrow> False | Inr out \<Rightarrow> True)"

definition html_of :: "world \<Rightarrow> blogPost \<Rightarrow> string" where
  "html_of w p = (case rendered w p of Inl e \<Rightarrow> [] | Inr out \<Rightarrow> out)"

text \<open>
  Two worlds in which every post meets the same file, options, clock and publication
  date.
\<close>

definition same_view :: "world \<Rightarrow> world \<Rightarrow> bool" where
  "same_view w w' \<longleftrightarrow>
     files w' = files w \<and> EnablePublicationTracking w' = EnablePublicationTracking w
     \<and> Backend w' = Backend w \<and> now w' = now w
     \<and> (\<forall>d n. resolve w' d n = resolve w d n)"

text \<open>A collection of two tracked posts in a process that starts.\<close>

definition example_blog :: blog where
  "example_blog =
     \<lparr>Posts = [post_at (Join ''blog'' ''001_a.md'') True example_template,
               post_at (Join ''blog'' ''003_c.md'') True example_template],
      Directory = ''blog''\<rparr>"

definition example_world :: world where
  "example_world = initial_world example_files Map.empty noon (Date 2026 10 31)"

section \<open>Entries of a store\<close>

text \<open>The rows that the store at a path holds for a post name.\<close>

definition entries :: "world \<Rightarrow> path \<Rightarrow> string \<Rightarrow> (string \<times> date) list" where
  "entries w fp name =
     (case disk w fp of
        Some (Some rows) \<Rightarrow> filter (\<lambda>row. fst row = name) rows
      | _ \<Rightarrow> [])"

text \<open>The errors of \<^verbatim>\<open>WriteHtml\<close> that arise after the publication block.\<close>

definition late_error :: "error \<Rightarrow> bool" where
  "late_error e \<longleftrightarrow> e = TemplateParseError \<or> e = TemplateTreeEmpty \<or> e = TemplateExecError \<or> e = WriteError"

text \<open>A tracked post, one whose template does not parse, and a build on the next day.\<close>

definition tracked_post :: blogPost where
  "tracked_post = post_at (Join ''blog'' ''001_a.md'') True example_template"

definition unparsed_post :: blogPost where
  "unparsed_post = post_at (Join ''blog'' ''001_a.md'') True BadSyntax"

definition first_build :: "error option \<times> blogPost \<times> writer \<times> world" where
  "first_build = WriteHtml tracked_post (Buffer []) example_world"

definition next_day :: "world \<Rightarrow> world" where
  "next_day w = w\<lparr>now := Time (Date 2026 11 1) 9 0 0 0, CURRENT_DATE := Date 2026 11 1\<rparr>"

section \<open>A heading behind earlier output\<close>

text \<open>
  A heading of level 3 as the renderer writes it once it has written something before:
  a line break, the wrapped heading, a line break.
\<close>

definition spaced_files :: "path \<rightharpoonup> node list" where
  "spaced_files =
     [Join ''blog'' ''h.md'' \<mapsto>
        [ast_Heading 3 (CHR 0x0A # ''<h3>Hello <em>you</em></h3>'' @ [CHR 0x0A]),
         ast_Paragraph ''<p>h</p>'']]"

definition spaced_world :: world where
  "spaced_world = initial_world spaced_files Map.empty noon (Date 2026 10 31)"

section \<open>Goroutines of the concurrent mode\<close>

text \<open>
  What a goroutine of \<^verbatim>\<open>RenderPostsAsync\<close> does once it has the date of its post: the
  lines of \<^verbatim>\<open>WriteHtml\<close> from the formatting of the date on, writing to the buffer of
  the goroutine, and \<^verbatim>\<open>buf.Bytes()\<close> for its slot.
\<close>

definition task_finish :: "blogPost \<Rightarrow> time option \<Rightarrow> error + string" where
  "task_finish p dtPosted =
     (case dtPosted of
        None \<Rightarrow> Inl NilDereference
      | Some t \<Rightarrow>
          (case execute_template (p\<lparr>DtPosted := Format_DateOnly t\<rparr>) of
             Inl e \<Rightarrow> Inl e
           | Inr out \<Rightarrow>
               (case Write (Buffer []) out of
                  Inl e \<Rightarrow> Inl e
                | Inr buf \<Rightarrow> Inr (Bytes buf))))"

text \<open>
  \<^verbatim>\<open>WriteHtml\<close> in a goroutine, cut at its accesses to what the goroutines share: the
  reading of the file (with the extraction, which is local), the \<^verbatim>\<open>Load\<close> of the
  pool, \<^verbatim>\<open>os.Create\<close>, the opening of the database with the schema batch, the
  \<^verbatim>\<open>LoadOrStore\<close>, \<^verbatim>\<open>GetPublicationDate\<close> and \<^verbatim>\<open>SetPublicationDate\<close>. A
  goroutine that has returned holds its error or the bytes for its slot.
\<close>

datatype task_pc =
    AtReadFile blogPost
  | AtPoolLoad blogPost
  | AtOsCreate blogPost
  | AtSqlOpen blogPost
  | AtPoolStore blogPost sqliteRegistry
  | AtGetDate blogPost sqliteRegistry
  | AtSetDate blogPost sqliteRegistry
  | Done "error + string"

fun task_step :: "task_pc \<Rightarrow> world \<Rightarrow> task_pc \<times> world" where
  "task_step (AtReadFile p) w =
     (case files w (FilePath p) of
        None \<Rightarrow> (Done (Inl (ReadFileError (FilePath p))), w)
      | Some nodes \<Rightarrow>
          (case extract_post nodes p of
             (Some e, p1) \<Rightarrow> (Done (Inl e), w)
           | (None, p1) \<Rightarrow>
               if EnablePublicationTracking w \<or> publicationTracking p1 then
                 (if Backend w = SQLite then (AtPoolLoad p1, w)
                  else (Done (Inl (UnrecognisedBackend (Backend w))), w))
               else (Done (task_finish p1 (Some (now w))), w)))"
| "task_step (AtPoolLoad p) w =
     (case sqlitePool w (Dir (FilePath p)) of
        Some loadedRegistry \<Rightarrow> (AtGetDate p loadedRegistry, w)
      | None \<Rightarrow> (AtOsCreate p, w))"
| "task_step (AtOsCreate p) w =
     (let fp = Join (Dir (FilePath p)) ''blog.sqlite'' in
      if fp \<in> nocreate w then (Done (Inl (CreateError fp)), w)
      else (AtSqlOpen p, w\<lparr>disk := (disk w)(fp \<mapsto> None)\<rparr>))"
| "task_step (AtSqlOpen p) w =
     (let fp = Join (Dir (FilePath p)) ''blog.sqlite'';
          db = next_conn w;
          w2 = w\<lparr>next_conn := Suc db\<rparr>
      in case exec_schema fp w2 of
           Inl e \<Rightarrow> (Done (Inl e), w2)
         | Inr w3 \<Rightarrow> (AtPoolStore p \<lparr>DB = db, location = fp\<rparr>, w3))"
| "task_step (AtPoolStore p registry) w =
     (AtGetDate p registry, LoadOrStore (Dir (FilePath p)) registry w)"
| "task_step (AtGetDate p backend) w =
     (case GetPublicationDate backend p w of
        Inl e \<Rightarrow> (Done (Inl e), w)
      | Inr (Some dtPosted) \<Rightarrow> (Done (task_finish p (Some dtPosted)), w)
      | Inr None \<Rightarrow> (AtSetDate p backend, w))"
| "task_step (AtSetDate p backend) w =
     (case SetPublicationDate backend p None w of
        (Inl e, w1) \<Rightarrow> (Done (Inl e), w1)
      | (Inr dtPosted, w1) \<Rightarrow> (Done (task_finish p dtPosted), w1))"
| "task_step (Done r) w = (Done r, w)"

text \<open>The goroutines of one call; the schedule names whose step is next.\<close>

fun run_goroutines :: "nat list \<Rightarrow> task_pc list \<Rightarrow> world \<Rightarrow> task_pc list \<times> world" where
  "run_goroutines [] pcs w = (pcs, w)"
| "run_goroutines (i # schedule) pcs w =
     (if i < length pcs then
        (case task_step (pcs ! i) w of
           (pc1, w1) \<Rightarrow> run_goroutines schedule (pcs[i := pc1]) w1)
      else run_goroutines schedule pcs w)"

text \<open>
  What a goroutine has returned, if it has; whether it has returned, whether with an
  error, and its slot of \<open>bufSlice\<close>.
\<close>

fun outcome :: "task_pc \<Rightarrow> (error + string) option" where
  "outcome (Done r) = Some r"
| "outcome pc = None"

fun returned :: "task_pc \<Rightarrow> bool" where
  "returned (Done r) = True"
| "returned pc = False"

fun failed :: "task_pc \<Rightarrow> bool" where
  "failed (Done (Inl e)) = True"
| "failed pc = False"

fun slot :: "task_pc \<Rightarrow> string" where
  "slot (Done (Inr bs)) = bs"
| "slot pc = []"

text \<open>
  \<^verbatim>\<open>RenderPostsAsync\<close> under a schedule of steps: \<^verbatim>\<open>g.Wait()\<close> returns once every
  goroutine has returned (the result is \<open>None\<close> for a schedule that stops before), with
  an error when one of them failed.
\<close>

definition RenderPostsAsync_interleaved ::
  "nat list \<Rightarrow> blog \<Rightarrow> world \<Rightarrow> ((string \<times> error option) \<times> world) option" where
  "RenderPostsAsync_interleaved schedule b w =
     (case run_goroutines schedule (map AtReadFile (Posts b)) w of
        (pcs, w1) \<Rightarrow>
          if list_all returned pcs then
            (if list_ex failed pcs then Some (([], None), w1)
             else Some ((concat (map slot pcs), None), w1))
          else None)"

text \<open>
  The two posts of directory \<^verbatim>\<open>blog\<close> on an empty pool: both goroutines find no handle;
  the first creates the store and installs its handle; the second truncates the store
  before the first looks its post up.
\<close>

definition racing_schedule :: "nat list" where
  "racing_schedule = [0, 0, 1, 1, 0, 0, 0, 1, 0, 1, 1, 1, 1]"

section \<open>A later build\<close>

text \<open>
  A process that starts on what an earlier one left: the files and the clocks are those
  of the world, the pool of the package is empty again.
\<close>

definition new_process :: "world \<Rightarrow> world" where
  "new_process w = w\<lparr>sqlitePool := Map.empty, next_conn := 0\<rparr>"

text \<open>The build of the next day: a new process renders the post of the first build again.\<close>

definition second_build :: "error option \<times> blogPost \<times> writer \<times> world" where
  "second_build =
     WriteHtml tracked_post (Buffer []) (next_day (new_process (snd (snd (snd first_build)))))"

section \<open>Collection renderer: the error of the concurrent mode\<close>

text \<open>
  C1. A collection whose only post has no heading: the sequential mode reports the
  failure, the concurrent mode returns the empty byte slice together with a nil error.
\<close>

theorem RenderPostsAsync_returns_nil_error:
  "fst (RenderPosts \<lparr>Posts = [post_at (Join ''blog'' ''002_b.md'') False example_template],
                    Directory = ''blog''\<rparr>
          (initial_world example_files Map.empty noon (Date 2026 10 31)))
     = ([], Some (CouldNotRender (Join ''blog'' ''002_b.md'') NoHeadingFound))
   \<and> fst (RenderPostsAsync [0]
          \<lparr>Posts = [post_at (Join ''blog'' ''002_b.md'') False example_template],
           Directory = ''blog''\<rparr>
          (initial_world example_files Map.empty noon (Date 2026 10 31)))
     = ([], None)"
  by (simp add: RenderPosts_def RenderPostsAsync_def initial_world_def post_at_def
      example_files_def WriteHtml_def extract_post_def)

section \<open>Registry initialisation\<close>

text \<open>
  C3. A new process starts on a directory whose store already holds an entry:
  \<^verbatim>\<open>os.Create\<close> truncates the file, and the entry is gone after initialisation.
\<close>

theorem createSqliteRegistry_truncates_store:
  "disk (initial_world example_files
           [Join ''blog'' ''blog.sqlite'' \<mapsto> Some [(''001_a.md'', Date 2024 1 1)]]
           noon (Date 2026 10 31)) (Join ''blog'' ''blog.sqlite'')
     = Some (Some [(''001_a.md'', Date 2024 1 1)])
   \<and> fst (createSqliteRegistry ''blog'' (initial_world example_files
           [Join ''blog'' ''blog.sqlite'' \<mapsto> Some [(''001_a.md'', Date 2024 1 1)]]
           noon (Date 2026 10 31)))
     = Inr \<lparr>DB = 0, location = Join ''blog'' ''blog.sqlite''\<rparr>
   \<and> disk (snd (createSqliteRegistry ''blog'' (initial_world example_files
           [Join ''blog'' ''blog.sqlite'' \<mapsto> Some [(''001_a.md'', Date 2024 1 1)]]
           noon (Date 2026 10 31)))) (Join ''blog'' ''blog.sqlite'')
     = Some (Some [])"
  by (simp add: createSqliteRegistry_def exec_schema_def initial_world_def Let_def)

section \<open>Registry pool under racing acquirers\<close>

text \<open>One goroutine alone: its three steps are \<^verbatim>\<open>Acquire\<close>.\<close>

lemma run_acquirers_single:
  "run_acquirers [0, 0, 0] directory [AtLoad] w =
     ([Returned (fst (Acquire directory w))], snd (Acquire directory w))"
  by (simp add: Acquire_def split: option.splits prod.splits sum.splits)

text \<open>
  C9. Two goroutines acquire directory \<^verbatim>\<open>blog\<close> on an empty pool, and both load
  before either stores: each creates a registry (the second truncating the store anew),
  the pool keeps the first one, and the second goroutine returns its own handle.
\<close>

theorem Acquire_race_two_handles:
  "run_acquirers [0, 1, 0, 0, 1, 1] ''blog'' [AtLoad, AtLoad]
       (initial_world example_files Map.empty noon (Date 2026 10 31))
     = ([Returned (Inr \<lparr>DB = 0, location = Join ''blog'' ''blog.sqlite''\<rparr>),
         Returned (Inr \<lparr>DB = 1, location = Join ''blog'' ''blog.sqlite''\<rparr>)],
        (initial_world example_files Map.empty noon (Date 2026 10 31))
          \<lparr>sqlitePool := [''blog'' \<mapsto> \<lparr>DB = 0, location = Join ''blog'' ''blog.sqlite''\<rparr>],
           disk := [Join ''blog'' ''blog.sqlite'' \<mapsto> Some []],
           next_conn := 2\<rparr>)"
  by (simp add: createSqliteRegistry_def exec_schema_def LoadOrStore_def initial_world_def Let_def)

section \<open>Publication registry: insertion and lookup\<close>

lemma filter_name_Cons:
  "filter (\<lambda>row. fst row = name) rows = x # xs \<Longrightarrow> name \<in> fst ` set rows"
proof -
  assume "filter (\<lambda>row. fst row = name) rows = x # xs"
  then have "x \<in> set (filter (\<lambda>row. fst row = name) rows)" by simp
  then show ?thesis by force
qed

lemma filter_name_Nil:
  "name \<notin> fst ` set rows \<Longrightarrow> filter (\<lambda>row. fst row = name) rows = []"
  by (induction rows) auto

lemma GetPublicationDate_SomeD:
  "GetPublicationDate r p w = Inr (Some d) \<Longrightarrow>
     location r \<notin> broken w \<and>
     (\<exists>rows. disk w (location r) = Some (Some rows) \<and> GetName p \<in> fst ` set rows)"
  unfolding GetPublicationDate_def select_dt_posted_def
  by (auto split: if_splits option.splits sum.splits list.splits dest: filter_name_Cons)

text \<open>
  C7. When the registry already returns a date for the post, \<^verbatim>\<open>SetPublicationDate\<close>
  for that post fails with the violation of the unique index, leaves the store as it
  was, and the date stored for the post is the one from before the call.
\<close>

theorem SetPublicationDate_duplicate:
  assumes "GetPublicationDate r p w = Inr (Some d)"
  shows "SetPublicationDate r p t w = (Inl (UniqueViolation (GetName p)), w)
       \<and> GetPublicationDate r p (snd (SetPublicationDate r p t w)) = Inr (Some d)"
proof -
  from assms obtain rows where "location r \<notin> broken w"
    and "disk w (location r) = Some (Some rows)" and "GetName p \<in> fst ` set rows"
    using GetPublicationDate_SomeD by blast
  then have "SetPublicationDate r p t w = (Inl (UniqueViolation (GetName p)), w)"
    by (simp add: SetPublicationDate_def insert_returning_def)
  with assms show ?thesis by simp
qed

theorem SetPublicationDate_duplicate_witness:
  "GetPublicationDate example_registry (post_at (Join ''blog'' ''001_a.md'') True example_template)
       tracked_world = Inr (Some (Time (Date 2024 1 1) 0 0 0 0))
   \<and> SetPublicationDate example_registry (post_at (Join ''blog'' ''001_a.md'') True example_template)
       (Some (Time (Date 2024 1 2) 0 0 0 0)) tracked_world
     = (Inl (UniqueViolation ''001_a.md''), tracked_world)"
proof -
  have h: "GetPublicationDate example_registry
             (post_at (Join ''blog'' ''001_a.md'') True example_template) tracked_world
           = Inr (Some (Time (Date 2024 1 1) 0 0 0 0))"
    by (simp add: GetPublicationDate_def select_dt_posted_def GetName_def post_at_def
        example_registry_def tracked_world_def initial_world_def scan_date_def)
  show ?thesis
    using h SetPublicationDate_duplicate [OF h, of "Some (Time (Date 2024 1 2) 0 0 0 0)"]
    by (simp add: GetName_def post_at_def)
qed

text \<open>
  C8. The date a successful \<^verbatim>\<open>SetPublicationDate\<close> returns is at midnight, it is the
  calendar date of the time given (or the current date of the store when none is given),
  and \<^verbatim>\<open>GetPublicationDate\<close> afterwards returns that same value.
\<close>

theorem registry_dates_midnight:
  assumes "fst (SetPublicationDate r p t w) = Inr (Some d)"
  shows "time_of_day d = (0, 0, 0, 0)
       \<and> date_of d = (case t of None \<Rightarrow> CURRENT_DATE w | Some t' \<Rightarrow> date_of t')
       \<and> GetPublicationDate r p (snd (SetPublicationDate r p t w)) = Inr (Some d)"
  using assms
  unfolding SetPublicationDate_def insert_returning_def GetPublicationDate_def select_dt_posted_def
  by (auto split: if_splits option.splits simp: Let_def scan_date_def filter_name_Nil)

theorem registry_dates_midnight_witness:
  "fst (SetPublicationDate example_registry (post_at (Join ''blog'' ''003_c.md'') True example_template)
       (Some (Time (Date 2024 1 1) 1 1 1 1)) tracked_world) = Inr (Some (Time (Date 2024 1 1) 0 0 0 0))
   \<and> time_of_day (Time (Date 2024 1 1) 0 0 0 0) = (0, 0, 0, 0)
   \<and> GetPublicationDate example_registry (post_at (Join ''blog'' ''003_c.md'') True example_template)
       (snd (SetPublicationDate example_registry
          (post_at (Join ''blog'' ''003_c.md'') True example_template)
          (Some (Time (Date 2024 1 1) 1 1 1 1)) tracked_world))
     = Inr (Some (Time (Date 2024 1 1) 0 0 0 0))"
proof -
  have h: "fst (SetPublicationDate example_registry
             (post_at (Join ''blog'' ''003_c.md'') True example_template)
             (Some (Time (Date 2024 1 1) 1 1 1 1)) tracked_world)
           = Inr (Some (Time (Date 2024 1 1) 0 0 0 0))"
    by (simp add: SetPublicationDate_def insert_returning_def GetName_def post_at_def
        example_registry_def tracked_world_def initial_world_def scan_date_def Let_def)
  show ?thesis
    using h registry_dates_midnight [OF h] by simp
qed

section \<open>Document extraction\<close>

lemma scan_nodes_append:
  "scan_nodes (pre @ rest) h ps =
     (case scan_nodes pre h ps of Inl e \<Rightarrow> Inl e | Inr (h', ps') \<Rightarrow> scan_nodes rest h' ps')"
proof (induction pre arbitrary: h ps)
  case Nil
  show ?case by simp
next
  case (Cons n pre)
  then show ?case by (cases n) auto
qed

lemma scan_nodes_supported:
  "filter is_other ns = [] \<Longrightarrow>
   scan_nodes ns h ps =
     (if 2 \<le> length (filter is_heading ns) + (if h = None then 0 else 1)
      then Inl MoreThanOneHeading
      else Inr (case filter is_heading ns of [] \<Rightarrow> h | x # xs \<Rightarrow> Some x,
                ps @ filter is_paragraph ns))"
proof (induction ns arbitrary: h ps)
  case Nil
  then show ?case by simp
next
  case (Cons n ns)
  then have sup: "filter is_other ns = []" by (simp split: if_splits)
  show ?case
  proof (cases n)
    case (ast_Heading l html)
    then show ?thesis
      using Cons.IH [OF sup, of "Some n" ps]
      by (auto split: list.splits)
  next
    case (ast_Paragraph html)
    then show ?thesis
      using Cons.IH [OF sup, of h "ps @ [n]"] by auto
  next
    case (ast_Other ty)
    with Cons.prems show ?thesis by simp
  qed
qed

lemma WriteHtml_extract_error:
  "files w (FilePath p) = Some nodes \<Longrightarrow> fst (extract_post nodes p) = Some e \<Longrightarrow>
   fst (WriteHtml p wr w) = Some e"
  by (auto simp: WriteHtml_def split: prod.splits option.splits)

lemma extract_post_scan_error:
  "scan_nodes nodes None [] = Inl e \<Longrightarrow> fst (extract_post nodes p) = Some e"
  by (simp add: extract_post_def)

text \<open>
  C5, as far as it holds. The scan stops at the first node it rejects, so the first
  defect in document order decides. For a file that can be read: with only headings and
  paragraphs and no heading the error is "no heading found"; when a second heading comes
  before any other kind of node it is "more than one heading"; with only headings and
  paragraphs, exactly one heading and no paragraph it is "no paragraphs"; and when a node
  of another kind comes before any second heading it is "unexpected node".
\<close>

theorem WriteHtml_extraction_errors:
  assumes "files w (FilePath p) = Some nodes"
  shows "(filter is_other nodes = [] \<and> filter is_heading nodes = []
            \<longrightarrow> fst (WriteHtml p wr w) = Some NoHeadingFound)
       \<and> (nodes = pre @ rest \<and> filter is_other pre = [] \<and> 2 \<le> length (filter is_heading pre)
            \<longrightarrow> fst (WriteHtml p wr w) = Some MoreThanOneHeading)
       \<and> (filter is_other nodes = [] \<and> length (filter is_heading nodes) = 1
            \<and> filter is_paragraph nodes = []
            \<longrightarrow> fst (WriteHtml p wr w) = Some NoParagraphs)
       \<and> (nodes = pre' @ ast_Other ty # rest' \<and> filter is_other pre' = []
            \<and> length (filter is_heading pre') \<le> 1
            \<longrightarrow> fst (WriteHtml p wr w) = Some (UnexpectedNode ty))"
proof (intro conjI impI)
  assume "filter is_other nodes = [] \<and> filter is_heading nodes = []"
  then have "fst (extract_post nodes p) = Some NoHeadingFound"
    by (simp add: extract_post_def scan_nodes_supported)
  then show "fst (WriteHtml p wr w) = Some NoHeadingFound"
    using assms WriteHtml_extract_error by blast
next
  assume a: "nodes = pre @ rest \<and> filter is_other pre = [] \<and> 2 \<le> length (filter is_heading pre)"
  then have "scan_nodes pre None [] = Inl MoreThanOneHeading"
    by (simp add: scan_nodes_supported)
  with a have "scan_nodes nodes None [] = Inl MoreThanOneHeading"
    by (simp add: scan_nodes_append)
  then show "fst (WriteHtml p wr w) = Some MoreThanOneHeading"
    using assms WriteHtml_extract_error extract_post_scan_error by blast
next
  assume a: "filter is_other nodes = [] \<and> length (filter is_heading nodes) = 1
              \<and> filter is_paragraph nodes = []"
  then obtain x where "filter is_heading nodes = [x]"
    by (cases "filter is_heading nodes") auto
  with a have "fst (extract_post nodes p) = Some NoParagraphs"
    by (simp add: extract_post_def scan_nodes_supported Let_def)
  then show "fst (WriteHtml p wr w) = Some NoParagraphs"
    using assms WriteHtml_extract_error by blast
next
  assume a: "nodes = pre' @ ast_Other ty # rest' \<and> filter is_other pre' = []
              \<and> length (filter is_heading pre') \<le> 1"
  then have "scan_nodes nodes None [] = Inl (UnexpectedNode ty)"
    by (simp add: scan_nodes_append scan_nodes_supported)
  then show "fst (WriteHtml p wr w) = Some (UnexpectedNode ty)"
    using assms WriteHtml_extract_error extract_post_scan_error by blast
qed

theorem WriteHtml_extraction_errors_witness:
  "fst (WriteHtml (post_at (Join ''blog'' ''a.md'') False example_template) (Buffer []) defect_world)
     = Some NoHeadingFound
   \<and> fst (WriteHtml (post_at (Join ''blog'' ''b.md'') False example_template) (Buffer []) defect_world)
     = Some MoreThanOneHeading
   \<and> fst (WriteHtml (post_at (Join ''blog'' ''c.md'') False example_template) (Buffer []) defect_world)
     = Some NoParagraphs
   \<and> fst (WriteHtml (post_at (Join ''blog'' ''d.md'') False example_template) (Buffer []) defect_world)
     = Some (UnexpectedNode ''*ast.List'')"
proof -
  have a: "files defect_world (FilePath (post_at (Join ''blog'' ''a.md'') False example_template))
             = Some [ast_Paragraph ''<p>hello</p>'']"
    and b: "files defect_world (FilePath (post_at (Join ''blog'' ''b.md'') False example_template))
             = Some [ast_Heading 2 ''<h2>B</h2>'', ast_Heading 2 ''<h2>B</h2>'', ast_Other ''*ast.List'']"
    and c: "files defect_world (FilePath (post_at (Join ''blog'' ''c.md'') False example_template))
             = Some [ast_Heading 2 ''<h2>C</h2>'']"
    and d: "files defect_world (FilePath (post_at (Join ''blog'' ''d.md'') False example_template))
             = Some [ast_Heading 2 ''<h2>D</h2>'', ast_Other ''*ast.List'', ast_Paragraph ''<p>d</p>'']"
    by (simp_all add: defect_world_def defect_files_def initial_world_def post_at_def)
  show ?thesis
    using WriteHtml_extraction_errors [OF a, where wr = "Buffer []"]
      WriteHtml_extraction_errors [OF b, where wr = "Buffer []"
        and pre = "[ast_Heading 2 ''<h2>B</h2>'', ast_Heading 2 ''<h2>B</h2>'']"
        and rest = "[ast_Other ''*ast.List'']"]
      WriteHtml_extraction_errors [OF c, where wr = "Buffer []"]
      WriteHtml_extraction_errors [OF d, where wr = "Buffer []"
        and pre' = "[ast_Heading 2 ''<h2>D</h2>'']" and ty = "''*ast.List''"
        and rest' = "[ast_Paragraph ''<p>d</p>'']"]
    by simp
qed

text \<open>
  C5 as stated fails: a document made of one list has no heading, and the error is the
  one for the unexpected node, not the one for the missing heading.
\<close>

theorem WriteHtml_extraction_errors_counterexample:
  "files defect_world (Join ''blog'' ''e.md'') = Some [ast_Other ''*ast.List'']
   \<and> filter is_heading [ast_Other ''*ast.List''] = []
   \<and> fst (WriteHtml (post_at (Join ''blog'' ''e.md'') False example_template) (Buffer []) defect_world)
       = Some (UnexpectedNode ''*ast.List'')
   \<and> fst (WriteHtml (post_at (Join ''blog'' ''e.md'') False example_template) (Buffer []) defect_world)
       \<noteq> Some NoHeadingFound"
  by (simp add: defect_world_def defect_files_def initial_world_def post_at_def WriteHtml_def
      extract_post_def)

section \<open>Heading text\<close>

lemma match_at_oldnew_None:
  "match_at oldnew s = None \<longleftrightarrow>
     \<not> prefix ''<h2>'' s \<and> \<not> prefix ''</h2>'' s \<and> \<not> prefix ''<h3>'' s \<and> \<not> prefix ''</h3>'' s"
  by (auto simp: match_at_def oldnew_def)

lemma no_cross:
  assumes "\<not> prefix p (c # s)" and "CHR ''<'' \<notin> set (tl p)" and "t = [] \<or> hd t = CHR ''<''"
  shows "\<not> prefix p ((c # s) @ t)"
proof
  assume "prefix p ((c # s) @ t)"
  with assms(1) obtain us where p: "p = (c # s) @ us" and us: "prefix us t"
    unfolding prefix_append by blast
  from p assms(1) have "us \<noteq> []" by auto
  with us assms(3) have "hd us = CHR ''<''"
    by (cases us; cases t) auto
  with \<open>us \<noteq> []\<close> p have "CHR ''<'' \<in> set (tl p)"
    by (cases us) auto
  with assms(2) show False by simp
qed

lemma Replace_copy:
  "\<not> has_match oldnew s \<Longrightarrow> t = [] \<or> hd t = CHR ''<'' \<Longrightarrow>
   Replace oldnew (s @ t) = s @ Replace oldnew t"
proof (induction s)
  case Nil
  show ?case by simp
next
  case (Cons c s)
  from Cons.prems(1) have none: "match_at oldnew (c # s) = None" and rest: "\<not> has_match oldnew s"
    by (simp_all split: if_splits)
  from none Cons.prems(2) have "match_at oldnew ((c # s) @ t) = None"
    unfolding match_at_oldnew_None by (intro conjI no_cross) auto
  then show ?case
    using Cons.IH [OF rest Cons.prems(2)] by simp
qed

lemma Replace_tags:
  "l = 2 \<or> l = 3 \<Longrightarrow> Replace oldnew (open_tag l @ t) = Replace oldnew t"
  "l = 2 \<or> l = 3 \<Longrightarrow> Replace oldnew (close_tag l @ t) = Replace oldnew t"
  by (auto simp: open_tag_def close_tag_def decimal.simps [of 2] decimal.simps [of 3] digit_def
      match_at_def oldnew_def)

lemma Replace_wrapped:
  assumes "l = 2 \<or> l = 3" and "\<not> has_match oldnew before"
    and "\<not> has_match oldnew inner" and "\<not> has_match oldnew rest"
  shows "Replace oldnew (before @ open_tag l @ inner @ close_tag l @ rest) = before @ inner @ rest"
proof -
  have "hd (open_tag l @ inner @ close_tag l @ rest) = CHR ''<''" by (simp add: open_tag_def)
  then have "Replace oldnew (before @ open_tag l @ inner @ close_tag l @ rest)
               = before @ Replace oldnew (open_tag l @ inner @ close_tag l @ rest)"
    using assms(2) by (simp add: Replace_copy)
  moreover have "hd (close_tag l @ rest) = CHR ''<''" by (simp add: close_tag_def)
  then have "Replace oldnew (inner @ close_tag l @ rest) = inner @ Replace oldnew (close_tag l @ rest)"
    using assms(3) by (simp add: Replace_copy)
  moreover have "Replace oldnew rest = rest"
    using Replace_copy [OF assms(4), of "[]"] by simp
  ultimately show ?thesis
    using assms(1) by (simp add: Replace_tags)
qed

lemma WriteHtml_Heading:
  "files w (FilePath p) = Some nodes \<Longrightarrow>
   Heading (fst (snd (WriteHtml p wr w))) = Heading (snd (extract_post nodes p))"
  by (auto simp: WriteHtml_def extract_post_def Let_def
      split: prod.splits option.splits sum.splits)

text \<open>
  C6, as far as it holds. For a document of headings and paragraphs with exactly one
  heading, of level 2 or 3, rendered as any text, its opening tag, the inner HTML, its
  closing tag and any text, where none of the three parts around the two tags contains one
  of the four replaced tags: the heading text is the rendered HTML without the two wrapper
  tags, that is the text before, the inner HTML and the text after.
\<close>

theorem WriteHtml_heading_text:
  assumes "files w (FilePath p) = Some nodes"
    and "filter is_other nodes = []"
    and "filter is_heading nodes
           = [ast_Heading l (before @ open_tag l @ inner @ close_tag l @ rest)]"
    and "l = 2 \<or> l = 3"
    and "\<not> has_match oldnew before" and "\<not> has_match oldnew inner"
    and "\<not> has_match oldnew rest"
  shows "Heading (fst (snd (WriteHtml p wr w))) = before @ inner @ rest"
proof -
  have "Heading (snd (extract_post nodes p))
          = Replace oldnew (before @ open_tag l @ inner @ close_tag l @ rest)"
    using assms(2,3) by (simp add: extract_post_def scan_nodes_supported Let_def)
  then show ?thesis
    using assms by (simp add: WriteHtml_Heading Replace_wrapped)
qed

theorem WriteHtml_heading_text_witness:
  "files spaced_world (FilePath (post_at (Join ''blog'' ''h.md'') False example_template))
     = Some [ast_Heading 3 (CHR 0x0A # ''<h3>Hello <em>you</em></h3>'' @ [CHR 0x0A]),
             ast_Paragraph ''<p>h</p>'']
   \<and> \<not> has_match oldnew [CHR 0x0A]
   \<and> \<not> has_match oldnew ''Hello <em>you</em>''
   \<and> Heading (fst (snd (WriteHtml (post_at (Join ''blog'' ''h.md'') False example_template)
        (Buffer []) spaced_world))) = CHR 0x0A # ''Hello <em>you</em>'' @ [CHR 0x0A]"
proof -
  let ?nodes = "[ast_Heading 3 (CHR 0x0A # ''<h3>Hello <em>you</em></h3>'' @ [CHR 0x0A]),
                 ast_Paragraph ''<p>h</p>'']"
  have f: "files spaced_world (FilePath (post_at (Join ''blog'' ''h.md'') False example_template))
             = Some ?nodes"
    by (simp add: spaced_world_def spaced_files_def initial_world_def post_at_def)
  have o: "filter is_other ?nodes = []"
    by simp
  have h: "filter is_heading ?nodes
             = [ast_Heading 3 ([CHR 0x0A] @ open_tag 3 @ ''Hello <em>you</em>'' @ close_tag 3
                  @ [CHR 0x0A])]"
    by (simp add: open_tag_def close_tag_def decimal.simps [of 3] digit_def)
  have l: "(3::nat) = 2 \<or> (3::nat) = 3" by simp
  have b: "\<not> has_match oldnew [CHR 0x0A]"
    by (simp add: match_at_def oldnew_def)
  have i: "\<not> has_match oldnew ''Hello <em>you</em>''"
    by (simp add: match_at_def oldnew_def)
  show ?thesis
    using f b i WriteHtml_heading_text [OF f o h l b i b, of "Buffer []"] by simp
qed

text \<open>
  C6 as stated fails for a heading of level 1: the replacer knows the tags of levels 2
  and 3 only, and the heading text keeps its wrapper.
\<close>

theorem WriteHtml_heading_text_counterexample:
  "filter is_heading [ast_Heading 1 ''<h1>Title</h1>'', ast_Paragraph ''<p>f</p>'']
     = [ast_Heading 1 (open_tag 1 @ ''Title'' @ close_tag 1)]
   \<and> Heading (fst (snd (WriteHtml (post_at (Join ''blog'' ''f.md'') False example_template)
        (Buffer []) defect_world))) = ''<h1>Title</h1>''"
  by (simp add: defect_world_def defect_files_def initial_world_def post_at_def WriteHtml_def
      extract_post_def open_tag_def close_tag_def decimal.simps [of "Suc 0"] digit_def
      match_at_def oldnew_def example_template_def execute_template_def publication_date_def
      Let_def)

section \<open>Publication date of a tracked post\<close>

lemma filter_name_empty_iff:
  "filter (\<lambda>row. fst row = name) rows = [] \<longleftrightarrow> name \<notin> fst ` set rows"
  by (force simp: filter_empty_conv)

lemma createSqliteRegistry_eq:
  "createSqliteRegistry d w =
     (if store_path d \<in> nocreate w then (Inl (CreateError (store_path d)), w)
      else if store_path d \<in> broken w
        then (Inl (StorageError (store_path d)),
              w\<lparr>disk := (disk w)(store_path d \<mapsto> None), next_conn := Suc (next_conn w)\<rparr>)
        else (Inr \<lparr>DB = next_conn w, location = store_path d\<rparr>,
              w\<lparr>disk := (disk w)(store_path d \<mapsto> Some []), next_conn := Suc (next_conn w)\<rparr>))"
  by (simp add: createSqliteRegistry_def exec_schema_def store_path_def Let_def)

lemma Get_eq:
  "GetPublicationDate r p w =
     (if location r \<in> broken w then Inl (StorageError (location r))
      else case disk w (location r) of
             Some (Some rows) \<Rightarrow>
               (case filter (\<lambda>row. fst row = GetName p) rows of
                  [] \<Rightarrow> Inr None
                | row # others \<Rightarrow> Inr (Some (scan_date (snd row))))
           | _ \<Rightarrow> Inl (StorageError (location r)))"
  by (auto simp: GetPublicationDate_def select_dt_posted_def split: option.splits list.splits)

lemma Set_None_eq:
  "SetPublicationDate r p None w =
     (if location r \<in> broken w then (Inl (StorageError (location r)), w)
      else case disk w (location r) of
             Some (Some rows) \<Rightarrow>
               if filter (\<lambda>row. fst row = GetName p) rows \<noteq> []
               then (Inl (UniqueViolation (GetName p)), w)
               else (Inr (Some (scan_date (CURRENT_DATE w))),
                     w\<lparr>disk := (disk w)(location r \<mapsto> Some (rows @ [(GetName p, CURRENT_DATE w)]))\<rparr>)
           | _ \<Rightarrow> (Inl (StorageError (location r)), w))"
  by (auto simp: SetPublicationDate_def insert_returning_def Let_def filter_name_empty_iff
      split: option.splits)

lemma lookup_or_stamp:
  "(case GetPublicationDate r p w of
      Inl e \<Rightarrow> (Inl e, w)
    | Inr (Some dtPosted) \<Rightarrow> (Inr (Some dtPosted), w)
    | Inr None \<Rightarrow> SetPublicationDate r p None w)
   = (if location r \<in> broken w then Inl (StorageError (location r))
      else case disk w (location r) of
             Some (Some rows) \<Rightarrow>
               (case filter (\<lambda>row. fst row = GetName p) rows of
                  [] \<Rightarrow> Inr (Some (scan_date (CURRENT_DATE w)))
                | row # others \<Rightarrow> Inr (Some (scan_date (snd row))))
           | _ \<Rightarrow> Inl (StorageError (location r)),
      stamped w (location r) (GetName p))"
  by (auto simp: Get_eq Set_None_eq stamped_def split: option.splits list.splits)

lemma Acquire_eq:
  "Acquire d w =
     (case sqlitePool w d of
        Some r \<Rightarrow> (Inr r, w)
      | None \<Rightarrow>
          if store_path d \<in> nocreate w then (Inl (CreateError (store_path d)), w)
          else if store_path d \<in> broken w
            then (Inl (StorageError (store_path d)),
                  w\<lparr>disk := (disk w)(store_path d \<mapsto> None), next_conn := Suc (next_conn w)\<rparr>)
            else (Inr \<lparr>DB = next_conn w, location = store_path d\<rparr>,
                  w\<lparr>disk := (disk w)(store_path d \<mapsto> Some []), next_conn := Suc (next_conn w),
                    sqlitePool := (sqlitePool w)(d \<mapsto> \<lparr>DB = next_conn w, location = store_path d\<rparr>)\<rparr>))"
  by (simp add: Acquire_def createSqliteRegistry_eq LoadOrStore_def split: option.splits)

lemma publication_date_eq:
  "publication_date p w =
     (if EnablePublicationTracking w \<or> publicationTracking p then
        (if Backend w = SQLite then
           (case Acquire (Dir (FilePath p)) w of
              (Inl e, w1) \<Rightarrow> (Inl e, w1)
            | (Inr backend, w1) \<Rightarrow>
                (if location backend \<in> broken w1 then Inl (StorageError (location backend))
                 else case disk w1 (location backend) of
                   Some (Some rows) \<Rightarrow>
                     (case filter (\<lambda>row. fst row = GetName p) rows of
                        [] \<Rightarrow> Inr (Some (scan_date (CURRENT_DATE w1)))
                      | row # others \<Rightarrow> Inr (Some (scan_date (snd row))))
                 | _ \<Rightarrow> Inl (StorageError (location backend)),
                 stamped w1 (location backend) (GetName p)))
         else (Inl (UnrecognisedBackend (Backend w)), w))
      else (Inr (Some (now w)), w))"
  unfolding publication_date_def lookup_or_stamp [symmetric]
  by (simp split: prod.splits sum.splits option.splits)

lemma publication_date_resolve:
  "EnablePublicationTracking w \<or> publicationTracking p \<Longrightarrow> Backend w = SQLite \<Longrightarrow>
   fst (publication_date p w) = resolve w (Dir (FilePath p)) (GetName p)"
  by (auto simp: publication_date_eq Acquire_eq resolve_def split: option.splits)

lemma publication_date_static:
  "files (snd (publication_date p w)) = files w"
  "EnablePublicationTracking (snd (publication_date p w)) = EnablePublicationTracking w"
  "Backend (snd (publication_date p w)) = Backend w"
  "nocreate (snd (publication_date p w)) = nocreate w"
  "broken (snd (publication_date p w)) = broken w"
  "now (snd (publication_date p w)) = now w"
  "CURRENT_DATE (snd (publication_date p w)) = CURRENT_DATE w"
  by (auto simp: publication_date_eq Acquire_eq stamped_def split: option.splits)

lemma publication_date_pool_ok:
  "pool_ok w \<Longrightarrow> pool_ok (snd (publication_date p w))"
  by (auto simp: publication_date_eq Acquire_eq stamped_def pool_ok_def split: option.splits)

lemma resolve_stamped:
  "resolve (stamped w fp name) d n = resolve w d n"
proof (cases "disk w fp")
  case None
  then show ?thesis by (simp add: stamped_def)
next
  case (Some tab)
  show ?thesis
  proof (cases tab)
    case None
    with Some show ?thesis by (simp add: stamped_def)
  next
    case (Some rows)
    note rows = \<open>disk w fp = Some tab\<close> \<open>tab = Some rows\<close>
    show ?thesis
    proof (cases "fp \<in> broken w \<or> filter (\<lambda>row. fst row = name) rows \<noteq> []")
      case True
      with rows show ?thesis by (simp add: stamped_def)
    next
      case False
      with rows have st: "stamped w fp name
          = w\<lparr>disk := (disk w)(fp \<mapsto> Some (rows @ [(name, CURRENT_DATE w)]))\<rparr>"
        by (simp add: stamped_def)
      show ?thesis
      proof (cases "sqlitePool w d")
        case None
        then show ?thesis by (simp add: st resolve_def)
      next
        case (Some h)
        show ?thesis
        proof (cases "location h = fp")
          case False
          with Some show ?thesis
            by (simp add: st resolve_def split: option.splits list.splits)
        next
          case True
          with Some rows \<open>\<not> (fp \<in> broken w \<or> filter (\<lambda>row. fst row = name) rows \<noteq> [])\<close>
          show ?thesis
            by (cases "filter (\<lambda>row. fst row = n) rows") (simp_all add: st resolve_def scan_date_def)
        qed
      qed
    qed
  qed
qed

lemma store_path_inj: "store_path d = store_path d' \<longleftrightarrow> d = d'"
  by (simp add: store_path_def)

lemma resolve_disk_other:
  assumes "pool_ok w" and "sqlitePool w d0 = None"
  shows "resolve (w\<lparr>disk := (disk w)(store_path d0 := x), next_conn := k\<rparr>) d n = resolve w d n"
proof (cases "sqlitePool w d")
  case None
  then show ?thesis by (simp add: resolve_def)
next
  case (Some h)
  with assms have "location h = store_path d" and "d \<noteq> d0"
    by (auto simp: pool_ok_def)
  then have "location h \<noteq> store_path d0" by (simp add: store_path_inj)
  with Some show ?thesis
    by (simp add: resolve_def split: option.splits list.splits)
qed

lemma resolve_installed:
  assumes "pool_ok w" and "sqlitePool w d0 = None"
    and "store_path d0 \<notin> nocreate w" and "store_path d0 \<notin> broken w"
  shows "resolve (w\<lparr>disk := (disk w)(store_path d0 \<mapsto> Some []), next_conn := k,
                   sqlitePool := (sqlitePool w)(d0 \<mapsto> \<lparr>DB = c, location = store_path d0\<rparr>)\<rparr>) d n
         = resolve w d n"
proof (cases "d = d0")
  case True
  with assms show ?thesis by (simp add: resolve_def)
next
  case False
  show ?thesis
  proof (cases "sqlitePool w d")
    case None
    with False show ?thesis by (simp add: resolve_def)
  next
    case (Some h)
    with assms have "location h = store_path d" by (auto simp: pool_ok_def)
    with False have "location h \<noteq> store_path d0" by (simp add: store_path_inj)
    with Some False show ?thesis
      by (simp add: resolve_def split: option.splits list.splits)
  qed
qed

lemma publication_date_world:
  "snd (publication_date p w) =
     (if (EnablePublicationTracking w \<or> publicationTracking p) \<and> Backend w = SQLite
      then dated w (Dir (FilePath p)) (GetName p) else w)"
  by (simp add: publication_date_eq Acquire_eq dated_def split: option.splits)

lemma resolve_dated:
  assumes "pool_ok w"
  shows "resolve (dated w d0 n0) d n = resolve w d n"
proof (cases "sqlitePool w d0")
  case (Some r)
  then show ?thesis by (simp add: dated_def resolve_stamped)
next
  case None
  show ?thesis
  proof (cases "store_path d0 \<in> nocreate w")
    case True
    with None show ?thesis by (simp add: dated_def)
  next
    case False
    show ?thesis
    proof (cases "store_path d0 \<in> broken w")
      case True
      with None False show ?thesis
        using resolve_disk_other [OF assms None, where x = "Some None" and k = "Suc (next_conn w)"
          and d = d and n = n]
        by (simp add: dated_def)
    next
      case nb: False
      with None False show ?thesis
        using resolve_installed [OF assms None False nb, where k = "Suc (next_conn w)"
          and c = "next_conn w" and d = d and n = n]
        by (simp add: dated_def resolve_stamped)
    qed
  qed
qed

lemma publication_date_resolve_same:
  "pool_ok w \<Longrightarrow> resolve (snd (publication_date p w)) d n = resolve w d n"
  by (simp add: publication_date_world resolve_dated)

section \<open>Sequential and concurrent rendering\<close>

lemma extract_post_fields:
  "FilePath (snd (extract_post nodes p)) = FilePath p"
  "publicationTracking (snd (extract_post nodes p)) = publicationTracking p"
  "template (snd (extract_post nodes p)) = template p"
  "DtPosted (snd (extract_post nodes p)) = DtPosted p"
  by (simp_all add: extract_post_def Let_def split: sum.splits option.splits prod.splits)

lemma publication_date_cong:
  "FilePath q = FilePath p \<Longrightarrow> publicationTracking q = publicationTracking p \<Longrightarrow>
   publication_date q w = publication_date p w"
proof -
  assume a: "FilePath q = FilePath p" "publicationTracking q = publicationTracking p"
  then have g: "GetName q = GetName p" by (simp add: GetName_def)
  show ?thesis unfolding publication_date_eq a g by (rule refl)
qed

lemma publication_date_extract:
  "publication_date (snd (extract_post nodes p)) w = publication_date p w"
  by (rule publication_date_cong) (simp_all add: extract_post_fields)

lemma publication_date_fst:
  "fst (publication_date p w) =
     (if EnablePublicationTracking w \<or> publicationTracking p then
        (if Backend w = SQLite then resolve w (Dir (FilePath p)) (GetName p)
         else Inl (UnrecognisedBackend (Backend w)))
      else Inr (Some (now w)))"
  using publication_date_resolve [of w p]
  by (auto simp: publication_date_def)

lemma publication_date_view:
  "same_view w w' \<Longrightarrow> fst (publication_date p w') = fst (publication_date p w)"
  by (simp add: publication_date_fst same_view_def)

lemma WriteHtml_eq:
  "WriteHtml p wr w =
     (case files w (FilePath p) of
        None \<Rightarrow> (Some (ReadFileError (FilePath p)), p, wr, w)
      | Some nodes \<Rightarrow>
          (case fst (extract_post nodes p) of
             Some e \<Rightarrow> (Some e, snd (extract_post nodes p), wr, w)
           | None \<Rightarrow>
               (case fst (publication_date p w) of
                  Inl e \<Rightarrow> (Some e, snd (extract_post nodes p), wr, snd (publication_date p w))
                | Inr None \<Rightarrow>
                    (Some NilDereference, snd (extract_post nodes p), wr, snd (publication_date p w))
                | Inr (Some dtPosted) \<Rightarrow>
                    (case execute_template
                            ((snd (extract_post nodes p))\<lparr>DtPosted := Format_DateOnly dtPosted\<rparr>) of
                       Inl e \<Rightarrow> (Some e, (snd (extract_post nodes p))\<lparr>DtPosted := Format_DateOnly dtPosted\<rparr>,
                                 wr, snd (publication_date p w))
                     | Inr out \<Rightarrow>
                         (case Write wr out of
                            Inl e \<Rightarrow> (Some e, (snd (extract_post nodes p))\<lparr>DtPosted := Format_DateOnly dtPosted\<rparr>,
                                      wr, snd (publication_date p w))
                          | Inr wr1 \<Rightarrow> (None, (snd (extract_post nodes p))\<lparr>DtPosted := Format_DateOnly dtPosted\<rparr>,
                                        wr1, snd (publication_date p w)))))))"
proof (cases "files w (FilePath p)")
  case None
  then show ?thesis by (simp add: WriteHtml_def)
next
  case (Some nodes)
  obtain e1 p1 where ex: "extract_post nodes p = (e1, p1)" by (cases "extract_post nodes p")
  have pd: "publication_date p1 w = publication_date p w"
    using publication_date_extract [of nodes p w] ex by simp
  obtain r w1 where pr: "publication_date p w = (r, w1)" by (cases "publication_date p w")
  show ?thesis
    using Some ex pd pr
    by (simp add: WriteHtml_def Let_def split: option.splits sum.splits)
qed

lemma rendered_view:
  assumes "same_view w w'"
  shows "rendered w' p = rendered w p"
proof -
  have f: "files w' = files w" using assms by (simp add: same_view_def)
  have pd: "fst (publication_date p w') = fst (publication_date p w)"
    using assms by (rule publication_date_view)
  show ?thesis
    unfolding rendered_def WriteHtml_eq f pd
    by (simp split: option.splits sum.splits)
qed

lemma WriteHtml_world:
  "snd (snd (snd (WriteHtml p wr w))) = w
   \<or> snd (snd (snd (WriteHtml p wr w))) = snd (publication_date p w)"
  unfolding WriteHtml_eq by (simp split: option.splits sum.splits)

lemma WriteHtml_Buffer:
  "fst (WriteHtml p (Buffer acc) w) = (case rendered w p of Inl e \<Rightarrow> Some e | Inr out \<Rightarrow> None)"
  "rendered w p = Inr out \<Longrightarrow> fst (snd (snd (WriteHtml p (Buffer acc) w))) = Buffer (acc @ out)"
  unfolding rendered_def WriteHtml_eq by (auto split: option.splits sum.splits)

lemma same_view_refl: "same_view w w"
  by (simp add: same_view_def)

lemma same_view_date:
  assumes "same_view w w'" and "pool_ok w'"
  shows "same_view w (snd (publication_date p w'))"
  using assms by (simp add: same_view_def publication_date_static publication_date_resolve_same)

lemma same_view_WriteHtml:
  assumes "same_view w w'" and "pool_ok w'"
  shows "same_view w (snd (snd (snd (WriteHtml p wr w'))))"
    and "pool_ok (snd (snd (snd (WriteHtml p wr w'))))"
  using assms WriteHtml_world [of p wr w'] same_view_date [OF assms, of p]
    publication_date_pool_ok [OF assms(2), of p]
  by auto

lemma render_loop_view:
  assumes "same_view w w'" and "pool_ok w'"
  shows "(list_all (renders w) posts \<longrightarrow>
            fst (render_loop posts (Buffer acc) w')
              = Inr (Buffer (acc @ concat (map (html_of w) posts))))
       \<and> (\<not> list_all (renders w) posts \<longrightarrow> isl (fst (render_loop posts (Buffer acc) w')))"
  using assms
proof (induction posts arbitrary: acc w')
  case Nil
  show ?case by simp
next
  case (Cons post posts)
  obtain e p1 wr1 w1 where W: "WriteHtml post (Buffer acc) w' = (e, p1, wr1, w1)"
    by (cases "WriteHtml post (Buffer acc) w'") auto
  have r: "rendered w' post = rendered w post"
    using Cons.prems(1) by (rule rendered_view)
  have e: "e = (case rendered w post of Inl x \<Rightarrow> Some x | Inr out \<Rightarrow> None)"
    using WriteHtml_Buffer(1) [of post acc w'] W r by simp
  have v1: "same_view w w1" and ok1: "pool_ok w1"
    using same_view_WriteHtml [OF Cons.prems, of post "Buffer acc"] W by simp_all
  show ?case
  proof (cases "rendered w post")
    case (Inl x)
    then have "\<not> renders w post" by (simp add: renders_def)
    with Inl e W show ?thesis by simp
  next
    case (Inr out)
    then have ro: "renders w post" and ho: "html_of w post = out"
      by (simp_all add: renders_def html_of_def)
    from Inr r have "wr1 = Buffer (acc @ out)"
      using WriteHtml_Buffer(2) [of w' post out acc] W by simp
    with Inr e W ro ho show ?thesis
      using Cons.IH [OF v1 ok1, of "acc @ out"] by simp
  qed
qed

lemma run_tasks_err:
  assumes "same_view w w'" and "pool_ok w'" and "\<forall>i \<in> set schedule. i < length posts"
  shows "(fst (snd (run_tasks schedule posts bufSlice err w')) = None)
           = (err = None \<and> (\<forall>i \<in> set schedule. renders w (posts ! i)))"
  using assms
proof (induction schedule arbitrary: bufSlice err w')
  case Nil
  show ?case by simp
next
  case (Cons i schedule)
  obtain e p1 wr1 w1 where W: "WriteHtml (posts ! i) (Buffer []) w' = (e, p1, wr1, w1)"
    by (cases "WriteHtml (posts ! i) (Buffer []) w'") auto
  have r: "rendered w' (posts ! i) = rendered w (posts ! i)"
    using Cons.prems(1) by (rule rendered_view)
  have e: "e = (case rendered w (posts ! i) of Inl x \<Rightarrow> Some x | Inr out \<Rightarrow> None)"
    using WriteHtml_Buffer(1) [of "posts ! i" "[]" w'] W r by simp
  have v1: "same_view w w1" and ok1: "pool_ok w1"
    using same_view_WriteHtml [OF Cons.prems(1,2), of "posts ! i" "Buffer []"] W by simp_all
  have rest: "\<forall>i \<in> set schedule. i < length posts" and i: "i < length posts"
    using Cons.prems(3) by simp_all
  show ?case
  proof (cases "rendered w (posts ! i)")
    case (Inl x)
    then have "\<not> renders w (posts ! i)" by (simp add: renders_def)
    with Inl e W i show ?thesis
      using Cons.IH [OF v1 ok1 rest, of bufSlice "case err of None \<Rightarrow> Some x | Some e0 \<Rightarrow> err"]
      by (simp split: option.splits)
  next
    case (Inr out)
    then have "renders w (posts ! i)" by (simp add: renders_def)
    with Inr e W i show ?thesis
      using Cons.IH [OF v1 ok1 rest, of "bufSlice[i := Bytes wr1]" err] by simp
  qed
qed

lemma run_tasks_slots:
  assumes "same_view w w'" and "pool_ok w'" and "\<forall>i \<in> set schedule. i < length posts"
    and "\<forall>i \<in> set schedule. renders w (posts ! i)"
  shows "fst (run_tasks schedule posts bufSlice err w')
           = fold (\<lambda>i bs. bs[i := html_of w (posts ! i)]) schedule bufSlice"
  using assms
proof (induction schedule arbitrary: bufSlice err w')
  case Nil
  show ?case by simp
next
  case (Cons i schedule)
  obtain e p1 wr1 w1 where W: "WriteHtml (posts ! i) (Buffer []) w' = (e, p1, wr1, w1)"
    by (cases "WriteHtml (posts ! i) (Buffer []) w'") auto
  have r: "rendered w' (posts ! i) = rendered w (posts ! i)"
    using Cons.prems(1) by (rule rendered_view)
  have v1: "same_view w w1" and ok1: "pool_ok w1"
    using same_view_WriteHtml [OF Cons.prems(1,2), of "posts ! i" "Buffer []"] W by simp_all
  have rest: "\<forall>i \<in> set schedule. i < length posts" and i: "i < length posts"
    using Cons.prems(3) by simp_all
  from Cons.prems(4) obtain out where out: "rendered w (posts ! i) = Inr out"
    and all: "\<forall>i \<in> set schedule. renders w (posts ! i)"
    by (cases "rendered w (posts ! i)") (auto simp: renders_def)
  have ho: "html_of w (posts ! i) = out" using out by (simp add: html_of_def)
  have e: "e = None"
    using WriteHtml_Buffer(1) [of "posts ! i" "[]" w'] W r out by simp
  have "wr1 = Buffer out"
    using WriteHtml_Buffer(2) [of w' "posts ! i" out "[]"] W r out by simp
  with e W i ho show ?case
    using Cons.IH [OF v1 ok1 rest all, of "bufSlice[i := out]" err] by simp
qed

lemma fold_update_nth:
  "j < length bs \<Longrightarrow>
   fold (\<lambda>i bs. bs[i := f i]) schedule bs ! j = (if j \<in> set schedule then f j else bs ! j)"
  "length (fold (\<lambda>i bs. bs[i := f i]) schedule bs) = length bs"
  by (induction schedule arbitrary: bs) (auto simp: nth_list_update)

lemma fold_update_all:
  assumes "set schedule = {0..<n}" and "length bs = n"
  shows "fold (\<lambda>i bs. bs[i := f i]) schedule bs = map f [0..<n]"
  using assms by (intro nth_equalityI) (simp_all add: fold_update_nth)

lemma map_posts_nth:
  "map (\<lambda>i. f (posts ! i)) [0..<length posts] = map f posts"
  by (intro nth_equalityI) simp_all

text \<open>
  Executions without preemption. Let every handle in the pool belong to its directory (as
  in a process that starts), and let the schedule run the task of every index, each as a
  whole. Then the tasks return the bytes that \<^verbatim>\<open>RenderPosts\<close> returns, whatever the
  order of the schedule: the concatenation of the HTML of the posts in the order of the
  collection when every post renders, and no bytes otherwise.
\<close>

lemma unpreempted_modes_agree:
  assumes "pool_ok w" and "set schedule = {0..<length (Posts b)}"
  shows "fst (fst (RenderPostsAsync schedule b w)) = fst (fst (RenderPosts b w))
       \<and> fst (fst (RenderPosts b w))
           = (if list_all (renders w) (Posts b) then concat (map (html_of w) (Posts b)) else [])"
proof -
  let ?posts = "Posts b"
  have v: "same_view w w" by (rule same_view_refl)
  have seq: "fst (fst (RenderPosts b w))
           = (if list_all (renders w) ?posts then concat (map (html_of w) ?posts) else [])"
  proof (cases "list_all (renders w) ?posts")
    case True
    then have "fst (render_loop ?posts (Buffer []) w) = Inr (Buffer (concat (map (html_of w) ?posts)))"
      using render_loop_view [OF v assms(1), of ?posts "[]"] by simp
    with True show ?thesis
      by (auto simp: RenderPosts_def split: prod.splits)
  next
    case False
    then have "isl (fst (render_loop ?posts (Buffer []) w))"
      using render_loop_view [OF v assms(1), of ?posts "[]"] by simp
    with False show ?thesis
      by (auto simp: RenderPosts_def split: prod.splits sum.splits)
  qed
  have range: "\<forall>i \<in> set schedule. i < length ?posts"
    using assms(2) by simp
  have all: "(\<forall>i \<in> set schedule. renders w (?posts ! i)) = list_all (renders w) ?posts"
    using assms(2) by (auto simp: list_all_length)
  obtain bufSlice err w1 where R:
    "run_tasks schedule ?posts (replicate (length ?posts) []) None w = (bufSlice, err, w1)"
    by (cases "run_tasks schedule ?posts (replicate (length ?posts) []) None w") auto
  have err: "(err = None) = list_all (renders w) ?posts"
    using run_tasks_err [OF v assms(1) range, of "replicate (length ?posts) []" None] R all
    by simp
  have async: "fst (fst (RenderPostsAsync schedule b w))
           = (if list_all (renders w) ?posts then concat (map (html_of w) ?posts) else [])"
  proof (cases "list_all (renders w) ?posts")
    case True
    with all have "bufSlice = fold (\<lambda>i bs. bs[i := html_of w (?posts ! i)]) schedule
                     (replicate (length ?posts) [])"
      using run_tasks_slots [OF v assms(1) range, of "replicate (length ?posts) []" None] R
      by simp
    then have "bufSlice = map (html_of w) ?posts"
      using fold_update_all [OF assms(2), of "replicate (length ?posts) []"
          "\<lambda>i. html_of w (?posts ! i)"]
      by (simp add: map_posts_nth)
    with True err R show ?thesis by (simp add: RenderPostsAsync_def)
  next
    case False
    with err R show ?thesis by (simp add: RenderPostsAsync_def)
  qed
  from seq async show ?thesis by simp
qed

lemma unpreempted_modes_agree_example:
  "pool_ok example_world \<and> set [1, 0] = {0..<length (Posts example_blog)}
   \<and> fst (fst (RenderPostsAsync [1, 0] example_blog example_world))
       = fst (fst (RenderPosts example_blog example_world))
   \<and> fst (fst (RenderPosts example_blog example_world))
     = ''<div><h2>Title</h2><span>2026-10-31</span><p>hey</p></div><div><h2>C</h2><span>2026-10-31</span><p>c</p></div>''"
proof -
  have ok: "pool_ok example_world"
    by (simp add: pool_ok_def example_world_def initial_world_def)
  have sch: "set [1, 0] = {0..<length (Posts example_blog)}"
    by (auto simp: example_blog_def)
  have out: "fst (fst (RenderPosts example_blog example_world))
     = ''<div><h2>Title</h2><span>2026-10-31</span><p>hey</p></div><div><h2>C</h2><span>2026-10-31</span><p>c</p></div>''"
    by code_simp
  show ?thesis
    using ok sch out unpreempted_modes_agree [OF ok sch] by simp
qed

section \<open>Goroutines that interleave\<close>

lemma run_goroutines_Done:
  "run_goroutines schedule [Done r] w = ([Done r], w)"
  by (induction schedule) simp_all

lemma run_goroutines_AtGetDate:
  "run_goroutines (0 # 0 # schedule) [AtGetDate p r] w =
     (case GetPublicationDate r p w of
        Inl e \<Rightarrow> ([Done (Inl e)], w)
      | Inr (Some dtPosted) \<Rightarrow> ([Done (task_finish p (Some dtPosted))], w)
      | Inr None \<Rightarrow>
          (case SetPublicationDate r p None w of
             (Inl e, w1) \<Rightarrow> ([Done (Inl e)], w1)
           | (Inr dtPosted, w1) \<Rightarrow> ([Done (task_finish p dtPosted)], w1)))"
  by (simp add: run_goroutines_Done split: sum.splits option.splits prod.splits)

lemma run_goroutines_AtPoolLoad:
  "run_goroutines (0 # 0 # 0 # 0 # 0 # 0 # schedule) [AtPoolLoad p] w =
     (case Acquire (Dir (FilePath p)) w of
        (Inl e, w1) \<Rightarrow> ([Done (Inl e)], w1)
      | (Inr r, w1) \<Rightarrow> run_goroutines [0, 0] [AtGetDate p r] w1)"
proof (cases "sqlitePool w (Dir (FilePath p))")
  case (Some r)
  then show ?thesis
    by (simp add: Acquire_def run_goroutines_Done split: sum.splits option.splits prod.splits)
next
  case None
  show ?thesis
  proof (cases "Join (Dir (FilePath p)) ''blog.sqlite'' \<in> nocreate w")
    case True
    with None show ?thesis
      by (simp add: Acquire_def createSqliteRegistry_def run_goroutines_Done)
  next
    case False
    let ?fp = "Join (Dir (FilePath p)) ''blog.sqlite''"
    let ?w2 = "w\<lparr>disk := (disk w)(?fp \<mapsto> None), next_conn := Suc (next_conn w)\<rparr>"
    show ?thesis
    proof (cases "exec_schema ?fp ?w2")
      case (Inl e)
      with None False show ?thesis
        by (simp add: Acquire_def createSqliteRegistry_def Let_def run_goroutines_Done)
    next
      case (Inr w3)
      with None False show ?thesis
        by (simp add: Acquire_def createSqliteRegistry_def Let_def run_goroutines_Done
            split: sum.splits option.splits prod.splits)
    qed
  qed
qed

lemma rendered_publication_date:
  assumes "files w (FilePath p) = Some nodes" and "extract_post nodes p = (None, p1)"
  shows "rendered w p
           = (case fst (publication_date p1 w) of
                Inl e \<Rightarrow> Inl e
              | Inr dtPosted \<Rightarrow> task_finish p1 dtPosted)"
    and "snd (snd (snd (WriteHtml p (Buffer []) w))) = snd (publication_date p1 w)"
  using assms
  by (auto simp: rendered_def WriteHtml_def task_finish_def Let_def
      split: sum.splits option.splits prod.splits)

text \<open>
  One goroutine alone: its steps are \<^verbatim>\<open>WriteHtml\<close> on an empty buffer, with the same
  error or bytes and the same world afterwards.
\<close>

lemma run_goroutines_single:
  "run_goroutines [0, 0, 0, 0, 0, 0, 0] [AtReadFile p] w =
     ([Done (rendered w p)], snd (snd (snd (WriteHtml p (Buffer []) w))))"
proof (cases "files w (FilePath p)")
  case None
  then show ?thesis
    by (simp add: rendered_def WriteHtml_def run_goroutines_Done)
next
  case (Some nodes)
  obtain e p1 where ex: "extract_post nodes p = (e, p1)"
    by (cases "extract_post nodes p") auto
  show ?thesis
  proof (cases e)
    case (Some err)
    with \<open>files w (FilePath p) = Some nodes\<close> ex show ?thesis
      by (simp add: rendered_def WriteHtml_def run_goroutines_Done)
  next
    case None
    with ex have ex': "extract_post nodes p = (None, p1)" by simp
    note r = rendered_publication_date [OF \<open>files w (FilePath p) = Some nodes\<close> ex']
    show ?thesis
    proof (cases "(EnablePublicationTracking w \<or> publicationTracking p1) \<and> Backend w = SQLite")
      case False
      with \<open>files w (FilePath p) = Some nodes\<close> ex' show ?thesis
        unfolding r by (auto simp: publication_date_def run_goroutines_Done)
    next
      case True
      then have pd: "publication_date p1 w =
          (case Acquire (Dir (FilePath p1)) w of
              (Inl e, w1) \<Rightarrow> (Inl e, w1)
            | (Inr backend, w1) \<Rightarrow>
                (case GetPublicationDate backend p1 w1 of
                   Inl e \<Rightarrow> (Inl e, w1)
                 | Inr (Some dtPosted) \<Rightarrow> (Inr (Some dtPosted), w1)
                 | Inr None \<Rightarrow> SetPublicationDate backend p1 None w1))"
        by (auto simp: publication_date_def)
      have "run_goroutines [0, 0, 0, 0, 0, 0, 0] [AtReadFile p] w
              = run_goroutines [0, 0, 0, 0, 0, 0] [AtPoolLoad p1] w"
        using True \<open>files w (FilePath p) = Some nodes\<close> ex' by auto
      also have "\<dots> = ([Done (case fst (publication_date p1 w) of
                                 Inl e \<Rightarrow> Inl e
                               | Inr dtPosted \<Rightarrow> task_finish p1 dtPosted)],
                        snd (publication_date p1 w))"
        unfolding run_goroutines_AtPoolLoad run_goroutines_AtGetDate pd
        by (simp split: sum.splits option.splits prod.splits)
      finally show ?thesis unfolding r .
    qed
  qed
qed

text \<open>
  C4. Two tracked posts of one directory, in a process that starts. \<^verbatim>\<open>RenderPosts\<close>
  returns the HTML of both. Under \<^verbatim>\<open>RenderPostsAsync\<close> both goroutines can miss the
  pool before either stores; the second then truncates the store that the first has
  initialised, the lookup of the first fails, and the call returns no bytes.
\<close>

theorem RenderPostsAsync_race_loses_output:
  "fst (RenderPosts example_blog example_world)
     = (''<div><h2>Title</h2><span>2026-10-31</span><p>hey</p></div><div><h2>C</h2><span>2026-10-31</span><p>c</p></div>'',
        None)
   \<and> map outcome
         (fst (run_goroutines racing_schedule (map AtReadFile (Posts example_blog)) example_world))
     = [Some (Inl (StorageError (Join ''blog'' ''blog.sqlite''))),
        Some (Inr ''<div><h2>C</h2><span>2026-10-31</span><p>c</p></div>'')]
   \<and> map_option fst (RenderPostsAsync_interleaved racing_schedule example_blog example_world)
     = Some ([], None)"
  by code_simp

section \<open>Late errors and repeated builds\<close>

lemma scan_nodes_not_late:
  "scan_nodes nodes h ps = Inl e \<Longrightarrow> \<not> late_error e"
proof (induction nodes arbitrary: h ps)
  case Nil
  then show ?case by simp
next
  case (Cons n nodes)
  then show ?case
    by (cases n) (auto simp: late_error_def split: if_splits)
qed

lemma extract_post_not_late:
  "fst (extract_post nodes p) = Some e \<Longrightarrow> \<not> late_error e"
  using scan_nodes_not_late [of nodes None "[]" e]
  by (auto simp: extract_post_def Let_def late_error_def split: sum.splits option.splits if_splits)

lemma resolve_not_late:
  "resolve w d n = Inl e \<Longrightarrow> \<not> late_error e"
  by (auto simp: resolve_def late_error_def split: option.splits if_splits list.splits)

lemma resolve_not_None:
  "resolve w d n \<noteq> Inr None"
  by (auto simp: resolve_def split: option.splits if_splits list.splits)

lemma publication_date_not_late:
  "fst (publication_date p w) = Inl e \<Longrightarrow> \<not> late_error e"
  using resolve_not_late [of w "Dir (FilePath p)" "GetName p" e]
  by (auto simp: publication_date_fst late_error_def split: if_splits)

lemma WriteHtml_late:
  assumes "fst (WriteHtml p wr w) = Some e" and "late_error e"
  shows "\<exists>dt. fst (publication_date p w) = Inr (Some dt)"
    and "snd (snd (snd (WriteHtml p wr w))) = snd (publication_date p w)"
proof -
  from assms obtain nodes where f: "files w (FilePath p) = Some nodes"
    by (cases "files w (FilePath p)") (auto simp: WriteHtml_eq late_error_def)
  from assms f have ex: "fst (extract_post nodes p) = None"
    using extract_post_not_late [of nodes p]
    by (cases "fst (extract_post nodes p)") (auto simp: WriteHtml_eq)
  from assms f ex show "\<exists>dt. fst (publication_date p w) = Inr (Some dt)"
    using publication_date_not_late [of p w]
    by (cases "fst (publication_date p w)")
      (auto simp: WriteHtml_eq late_error_def split: option.splits)
  from f ex show "snd (snd (snd (WriteHtml p wr w))) = snd (publication_date p w)"
    by (simp add: WriteHtml_eq split: option.splits sum.splits)
qed

lemma tracked_resolved:
  assumes "EnablePublicationTracking w \<or> publicationTracking p"
    and "fst (publication_date p w) = Inr (Some dt)"
  shows "Backend w = SQLite"
    and "resolve w (Dir (FilePath p)) (GetName p) = Inr (Some dt)"
    and "snd (publication_date p w) = dated w (Dir (FilePath p)) (GetName p)"
  using assms by (auto simp: publication_date_fst publication_date_world split: if_splits)

lemma dated_fresh:
  assumes "sqlitePool w d = None" and "resolve w d n = Inr (Some dt)"
  shows "dt = scan_date (CURRENT_DATE w)"
    and "store_path d \<notin> broken w"
    and "dated w d n =
           w\<lparr>disk := (disk w)(store_path d \<mapsto> Some [(n, CURRENT_DATE w)]),
             next_conn := Suc (next_conn w),
             sqlitePool := (sqlitePool w)(d \<mapsto> \<lparr>DB = next_conn w, location = store_path d\<rparr>)\<rparr>"
  using assms by (auto simp: resolve_def dated_def stamped_def split: if_splits)

lemma dated_known:
  assumes "sqlitePool w d = Some r" and "resolve w d n = Inr (Some dt)"
    and "entries w (location r) n = []"
  shows "dt = scan_date (CURRENT_DATE w)"
    and "location r \<notin> broken w"
    and "\<exists>rows. filter (\<lambda>row. fst row = n) rows = [] \<and> disk w (location r) = Some (Some rows)
           \<and> dated w d n = w\<lparr>disk := (disk w)(location r \<mapsto> Some (rows @ [(n, CURRENT_DATE w)]))\<rparr>"
  using assms
  by (auto simp: resolve_def dated_def stamped_def entries_def
      split: if_splits option.splits list.splits)

text \<open>
  C10. Publication tracking is on, the store has no entry for the post, and
  \<^verbatim>\<open>WriteHtml\<close> fails with an error of the template or of the writer. Then the pool
  holds a handle for the directory of the post, the store holds exactly the entry that
  this call inserted, with the current date, and \<^verbatim>\<open>GetPublicationDate\<close> returns it: the
  insertion is not undone by the late error.
\<close>

theorem WriteHtml_late_error_keeps_entry:
  assumes "EnablePublicationTracking w \<or> publicationTracking p"
    and "fst (WriteHtml p wr w) = Some e" and "late_error e"
    and "case sqlitePool w (Dir (FilePath p)) of
           None \<Rightarrow> True
         | Some r \<Rightarrow> entries w (location r) (GetName p) = []"
  shows "case sqlitePool (snd (snd (snd (WriteHtml p wr w)))) (Dir (FilePath p)) of
           None \<Rightarrow> False
         | Some r \<Rightarrow>
             entries (snd (snd (snd (WriteHtml p wr w)))) (location r) (GetName p)
               = [(GetName p, CURRENT_DATE w)]
             \<and> GetPublicationDate r p (snd (snd (snd (WriteHtml p wr w))))
               = Inr (Some (scan_date (CURRENT_DATE w)))"
proof -
  let ?d = "Dir (FilePath p)" and ?n = "GetName p"
  from WriteHtml_late [OF assms(2,3)] obtain dt
    where pd: "fst (publication_date p w) = Inr (Some dt)"
      and w1: "snd (snd (snd (WriteHtml p wr w))) = snd (publication_date p w)"
    by blast
  note tr = tracked_resolved [OF assms(1) pd]
  show ?thesis
  proof (cases "sqlitePool w ?d")
    case None
    note fr = dated_fresh [OF None tr(2)]
    show ?thesis
      unfolding w1 tr(3) fr(3) using fr(2)
      by (simp add: entries_def Get_eq)
  next
    case (Some r)
    with assms(4) have "entries w (location r) ?n = []" by simp
    from dated_known [OF Some tr(2) this] obtain rows
      where nb: "location r \<notin> broken w"
        and rows: "filter (\<lambda>row. fst row = ?n) rows = []"
        and dt: "dated w ?d ?n
                  = w\<lparr>disk := (disk w)(location r \<mapsto> Some (rows @ [(?n, CURRENT_DATE w)]))\<rparr>"
      by blast
    show ?thesis
      unfolding w1 tr(3) dt using Some nb rows
      by (simp add: entries_def Get_eq)
  qed
qed

theorem WriteHtml_late_error_keeps_entry_witness:
  "fst (WriteHtml unparsed_post (Buffer []) example_world) = Some TemplateParseError
   \<and> late_error TemplateParseError
   \<and> sqlitePool example_world ''blog'' = None
   \<and> (case sqlitePool (snd (snd (snd (WriteHtml unparsed_post (Buffer []) example_world)))) ''blog'' of
         None \<Rightarrow> False
       | Some r \<Rightarrow>
           entries (snd (snd (snd (WriteHtml unparsed_post (Buffer []) example_world))))
               (location r) ''001_a.md''
             = [(''001_a.md'', Date 2026 10 31)]
           \<and> GetPublicationDate r unparsed_post
                (snd (snd (snd (WriteHtml unparsed_post (Buffer []) example_world))))
             = Inr (Some (scan_date (Date 2026 10 31))))"
proof -
  have t: "EnablePublicationTracking example_world \<or> publicationTracking unparsed_post"
    by (simp add: unparsed_post_def post_at_def)
  have f: "fst (WriteHtml unparsed_post (Buffer []) example_world) = Some TemplateParseError"
    by code_simp
  have l: "late_error TemplateParseError"
    by (simp add: late_error_def)
  have n: "sqlitePool example_world ''blog'' = None"
    by (simp add: example_world_def initial_world_def)
  have d: "Dir (FilePath unparsed_post) = ''blog''" and g: "GetName unparsed_post = ''001_a.md''"
    and c: "CURRENT_DATE example_world = Date 2026 10 31"
    by (simp_all add: unparsed_post_def post_at_def GetName_def example_world_def initial_world_def)
  have h: "case sqlitePool example_world (Dir (FilePath unparsed_post)) of
             None \<Rightarrow> True
           | Some r \<Rightarrow> entries example_world (location r) (GetName unparsed_post) = []"
    by (simp add: d n)
  show ?thesis
    using f l n WriteHtml_late_error_keeps_entry [OF t f l h, unfolded d g c]
    by simp
qed

lemma WriteHtml_successD:
  assumes "WriteHtml p wr w = (None, p1, wr1, w1)"
  shows "\<exists>nodes dt out.
           files w (FilePath p) = Some nodes \<and> fst (extract_post nodes p) = None
           \<and> fst (publication_date p w) = Inr (Some dt)
           \<and> p1 = (snd (extract_post nodes p))\<lparr>DtPosted := Format_DateOnly dt\<rparr>
           \<and> execute_template p1 = Inr out \<and> Write wr out = Inr wr1
           \<and> w1 = snd (publication_date p w)"
  using assms unfolding WriteHtml_eq
  by (auto split: option.splits sum.splits)

lemma extract_post_again:
  assumes "fst (extract_post nodes p) = None"
  shows "extract_post nodes ((snd (extract_post nodes p))\<lparr>DtPosted := x\<rparr>)
           = (None, (snd (extract_post nodes p))\<lparr>DtPosted := x\<rparr>)"
  using assms
  by (auto simp: extract_post_def Let_def split: sum.splits option.splits if_splits)

lemma Write_Buffer:
  "Write wr out = Inr wr1 \<Longrightarrow> Bytes wr1 = Bytes wr @ out \<and> Write wr1 out = Inr (Buffer (Bytes wr1 @ out))"
  by (cases wr) auto

text \<open>
  A second call in the same process. Publication tracking is on and the pool has no
  handle for the directory yet. When \<^verbatim>\<open>WriteHtml\<close> succeeds, the date of the post is
  the current date of the store; a second call on the same post in the world the first
  call left (the pool holds the handle), at any later clock, succeeds with the same post
  fields, writes the same bytes again, leaves the store as it was, and the store holds
  exactly one entry for the post, dated by the first call.
\<close>

lemma WriteHtml_again_in_process:
  assumes "EnablePublicationTracking w \<or> publicationTracking p"
    and "sqlitePool w (Dir (FilePath p)) = None"
    and "WriteHtml p wr w = (None, p1, wr1, w1)"
  shows "DtPosted p1 = show_date (CURRENT_DATE w)
       \<and> WriteHtml p1 wr1 (w1\<lparr>now := t2, CURRENT_DATE := d2\<rparr>)
           = (None, p1, Buffer (Bytes wr1 @ drop (length (Bytes wr)) (Bytes wr1)),
              w1\<lparr>now := t2, CURRENT_DATE := d2\<rparr>)
       \<and> entries (w1\<lparr>now := t2, CURRENT_DATE := d2\<rparr>) (store_path (Dir (FilePath p))) (GetName p)
           = [(GetName p, CURRENT_DATE w)]"
proof -
  let ?d = "Dir (FilePath p)" and ?n = "GetName p"
  let ?w2 = "w1\<lparr>now := t2, CURRENT_DATE := d2\<rparr>"
  from WriteHtml_successD [OF assms(3)] obtain nodes dt out
    where f: "files w (FilePath p) = Some nodes"
      and ex: "fst (extract_post nodes p) = None"
      and pd: "fst (publication_date p w) = Inr (Some dt)"
      and p1: "p1 = (snd (extract_post nodes p))\<lparr>DtPosted := Format_DateOnly dt\<rparr>"
      and et: "execute_template p1 = Inr out"
      and wt: "Write wr out = Inr wr1"
      and w1: "w1 = snd (publication_date p w)"
    by blast
  note tr = tracked_resolved [OF assms(1) pd]
  note fr = dated_fresh [OF assms(2) tr(2)]
  have w1': "w1 = w\<lparr>disk := (disk w)(store_path ?d \<mapsto> Some [(?n, CURRENT_DATE w)]),
             next_conn := Suc (next_conn w),
             sqlitePool := (sqlitePool w)(?d \<mapsto> \<lparr>DB = next_conn w, location = store_path ?d\<rparr>)\<rparr>"
    using w1 tr(3) fr(3) by simp
  have fp1: "FilePath p1 = FilePath p" and tk1: "publicationTracking p1 = publicationTracking p"
    by (simp_all add: p1 extract_post_fields)
  have n1: "GetName p1 = ?n" by (simp add: GetName_def fp1)
  have dt1: "DtPosted p1 = show_date (CURRENT_DATE w)"
    by (simp add: p1 fr(1) Format_DateOnly_def scan_date_def)
  have f2: "files ?w2 (FilePath p1) = Some nodes"
    by (simp add: fp1 w1' f)
  have ex2: "extract_post nodes p1 = (None, p1)"
    unfolding p1 using extract_post_again [OF ex] .
  have trk2: "EnablePublicationTracking ?w2 \<or> publicationTracking p1"
    using assms(1) by (simp add: w1' tk1)
  have res2: "resolve ?w2 ?d ?n = Inr (Some (scan_date (CURRENT_DATE w)))"
    using fr(2) by (simp add: resolve_def w1')
  have pd2: "fst (publication_date p1 ?w2) = Inr (Some dt)"
    using trk2 tr(1) res2 by (simp add: publication_date_fst fp1 n1 w1' fr(1))
  have st2: "snd (publication_date p1 ?w2) = ?w2"
    using trk2 tr(1) fr(2)
    by (simp add: publication_date_world fp1 n1 dated_def stamped_def w1')
  have same: "p1\<lparr>DtPosted := Format_DateOnly dt\<rparr> = p1"
    by (simp add: p1)
  have bytes: "Bytes wr1 = Bytes wr @ out"
    and wt2: "Write wr1 out = Inr (Buffer (Bytes wr1 @ out))"
    using Write_Buffer [OF wt] by simp_all
  have second: "WriteHtml p1 wr1 ?w2 = (None, p1, Buffer (Bytes wr1 @ out), ?w2)"
    unfolding WriteHtml_eq f2 using ex2 pd2 st2 et wt2 by (simp add: same)
  have ent: "entries ?w2 (store_path ?d) ?n = [(?n, CURRENT_DATE w)]"
    by (simp add: entries_def w1')
  from dt1 second ent bytes show ?thesis by simp
qed

lemma WriteHtml_again_in_process_example:
  "fst first_build = None
   \<and> sqlitePool example_world ''blog'' = None
   \<and> DtPosted (fst (snd first_build)) = ''2026-10-31''
   \<and> fst (WriteHtml (fst (snd first_build)) (fst (snd (snd first_build)))
            (next_day (snd (snd (snd first_build))))) = None
   \<and> DtPosted (fst (snd (WriteHtml (fst (snd first_build)) (fst (snd (snd first_build)))
            (next_day (snd (snd (snd first_build))))))) = ''2026-10-31''
   \<and> entries (next_day (snd (snd (snd first_build)))) (Join ''blog'' ''blog.sqlite'') ''001_a.md''
       = [(''001_a.md'', Date 2026 10 31)]"
proof -
  have t: "EnablePublicationTracking example_world \<or> publicationTracking tracked_post"
    by (simp add: tracked_post_def post_at_def)
  have d: "Dir (FilePath tracked_post) = ''blog''" and g: "GetName tracked_post = ''001_a.md''"
    and c: "CURRENT_DATE example_world = Date 2026 10 31"
    by (simp_all add: tracked_post_def post_at_def GetName_def example_world_def initial_world_def)
  have n: "sqlitePool example_world (Dir (FilePath tracked_post)) = None"
    by (simp add: d example_world_def initial_world_def)
  have ok: "fst first_build = None"
    by code_simp
  then have f: "WriteHtml tracked_post (Buffer []) example_world
      = (None, fst (snd first_build), fst (snd (snd first_build)), snd (snd (snd first_build)))"
    by (simp add: first_build_def prod_eq_iff)
  have sd: "show_date (Date 2026 10 31) = ''2026-10-31''"
    by code_simp
  show ?thesis
    using ok n WriteHtml_again_in_process [OF t n f, where ?t2.0 = "Time (Date 2026 11 1) 9 0 0 0"
        and ?d2.0 = "Date 2026 11 1"]
    by (simp add: d g c sd next_day_def store_path_def del: show_date.simps)
qed

text \<open>
  C2. A tracked post is built on 31 October 2026 in a process that starts on a directory
  without store: the date is that day, and the store holds one entry with it. The build
  of the next day is a new process: it misses the pool, \<^verbatim>\<open>os.Create\<close> truncates the
  store, and the post is stamped anew. Its date and its bytes are those of the second
  build, and the one entry of the store carries the second date.
\<close>

theorem WriteHtml_next_build_restamps:
  "fst first_build = None
   \<and> DtPosted (fst (snd first_build)) = ''2026-10-31''
   \<and> Bytes (fst (snd (snd first_build)))
       = ''<div><h2>Title</h2><span>2026-10-31</span><p>hey</p></div>''
   \<and> entries (snd (snd (snd first_build))) (Join ''blog'' ''blog.sqlite'') ''001_a.md''
       = [(''001_a.md'', Date 2026 10 31)]
   \<and> fst second_build = None
   \<and> DtPosted (fst (snd second_build)) = ''2026-11-01''
   \<and> Bytes (fst (snd (snd second_build)))
       = ''<div><h2>Title</h2><span>2026-11-01</span><p>hey</p></div>''
   \<and> entries (snd (snd (snd second_build))) (Join ''blog'' ''blog.sqlite'') ''001_a.md''
       = [(''001_a.md'', Date 2026 11 1)]"
  by code_simp

end
